theory Spec2Isabelle
  imports Main
begin

section \<open>Strings\<close>

text \<open>
  A JavaScript string is a sequence of UTF-16 code units. It is modelled as a
  \<^typ>\<open>string\<close> whose characters stand for code units below 256, so \<open>length\<close>,
  \<open>take\<close> and the splitting functions count what \<open>.length\<close>, \<open>.slice\<close> and
  \<open>.split\<close> count.
\<close>

text \<open>White space as \<open>parseInt\<close> and \<open>String.prototype.trim\<close> skip it (TAB, LF, VT, FF, CR,
  SP, NBSP among the code units below 256).\<close>

definition js_whitespace :: "char \<Rightarrow> bool" where
  "js_whitespace c \<longleftrightarrow>
     c \<in> set [CHR 0x09, CHR 0x0A, CHR 0x0B, CHR 0x0C, CHR 0x0D, CHR 0x20, CHR 0xA0]"

definition trim :: "string \<Rightarrow> string" where
  "trim s = rev (dropWhile js_whitespace (rev (dropWhile js_whitespace s)))"

definition is_digit :: "char \<Rightarrow> bool" where
  "is_digit c \<longleftrightarrow> c \<in> set ''0123456789''"

text \<open>The value of a digit is its place among the ten digits.\<close>

definition digit_val :: "char \<Rightarrow> nat" where
  "digit_val c = length (takeWhile (\<lambda>d. d \<noteq> c) ''0123456789'')"

definition digits_value :: "string \<Rightarrow> nat" where
  "digits_value ds = foldl (\<lambda>a c. 10 * a + digit_val c) 0 ds"

text \<open>\<open>Array.prototype.join(',')\<close> on an array of strings.\<close>

fun join_comma :: "string list \<Rightarrow> string" where
  "join_comma [] = []"
| "join_comma [s] = s"
| "join_comma (s # t # ts) = s @ '','' @ join_comma (t # ts)"

text \<open>Decimal numerals, as \<open>Number.prototype.toString\<close> prints an integer.\<close>

fun show_nat :: "nat \<Rightarrow> string" where
  "show_nat n =
     (if n < 10 then [''0123456789'' ! n]
      else show_nat (n div 10) @ [''0123456789'' ! (n mod 10)])"

declare show_nat.simps [simp del]

definition show_int :: "int \<Rightarrow> string" where
  "show_int i = (if i < 0 then CHR ''-'' # show_nat (nat (- i)) else show_nat (nat i))"

text \<open>
  \<open>parseInt(s, 10)\<close> on a string: leading white space is skipped, one sign is read, then the
  longest run of decimal digits; whatever follows the digits is ignored. \<open>None\<close> is \<open>NaN\<close>
  (no digit where one is expected).
\<close>

definition parseInt_str :: "string \<Rightarrow> int option" where
  "parseInt_str s =
     (let t = dropWhile js_whitespace s;
          neg = (case t of [] \<Rightarrow> False | c # _ \<Rightarrow> c = CHR ''-'');
          u = (case t of [] \<Rightarrow> [] | c # cs \<Rightarrow> if c = CHR ''+'' \<or> c = CHR ''-'' then cs else t);
          z = takeWhile is_digit u
      in if z = [] then None
         else Some (if neg then - int (digits_value z) else int (digits_value z)))"

section \<open>Values of the option and settings objects\<close>

text \<open>
  The values that the search form and the settings store hold: \<open>undefined\<close>, \<open>null\<close>,
  booleans, numbers, strings and arrays of strings (the tag lists, which \<open>splitAndTrim\<close>
  builds from strings). A number is an integer or \<open>NaN\<close>: every number of the form comes
  from \<open>parseInt(_, 10)\<close> or is an integer constant. \<open>Num n\<close> is the double of value \<open>n\<close>,
  which is exact for \<open>\<bar>n\<bar> \<le> MAX_SAFE_INTEGER\<close>; theorems about the digits of a number
  carry that bound.
\<close>

datatype jsval =
    Undefined
  | Null
  | Bool bool
  | Num int
  | NaN
  | Str string
  | Arr "string list"

definition MAX_SAFE_INTEGER :: int where
  "MAX_SAFE_INTEGER = 9007199254740991"

fun truthy :: "jsval \<Rightarrow> bool" where
  "truthy Undefined = False"
| "truthy Null = False"
| "truthy (Bool b) = b"
| "truthy (Num n) = (n \<noteq> 0)"
| "truthy NaN = False"
| "truthy (Str s) = (s \<noteq> [])"
| "truthy (Arr xs) = True"

text \<open>\<open>typeof v === 'boolean'\<close> and \<open>Array.isArray(v)\<close>.\<close>

fun is_boolean :: "jsval \<Rightarrow> bool" where
  "is_boolean (Bool b) = True"
| "is_boolean v = False"

fun isArray :: "jsval \<Rightarrow> bool" where
  "isArray (Arr xs) = True"
| "isArray v = False"

text \<open>\<open>a || b\<close>.\<close>

definition js_or :: "jsval \<Rightarrow> jsval \<Rightarrow> jsval" where
  "js_or a b = (if truthy a then a else b)"

text \<open>The string conversion that \<open>parseInt\<close> and \<open>URLSearchParams.append\<close> apply to their
  argument.\<close>

fun ToString :: "jsval \<Rightarrow> string" where
  "ToString Undefined = ''undefined''"
| "ToString Null = ''null''"
| "ToString (Bool b) = (if b then ''true'' else ''false'')"
| "ToString (Num n) = show_int n"
| "ToString NaN = ''NaN''"
| "ToString (Str s) = s"
| "ToString (Arr xs) = join_comma xs"

definition parseInt :: "jsval \<Rightarrow> jsval" where
  "parseInt v = (case parseInt_str (ToString v) of None \<Rightarrow> NaN | Some n \<Rightarrow> Num n)"

text \<open>\<open>isNaN\<close> on a number.\<close>

fun isNaN :: "jsval \<Rightarrow> bool" where
  "isNaN NaN = True"
| "isNaN v = False"

section \<open>Objects\<close>

text \<open>
  An object with data properties is the list of its entries in insertion order, which is
  the order of \<open>Object.entries\<close>. Reading a missing property gives \<open>undefined\<close>; an
  assignment overwrites a property where it stands or appends a new one. Property names
  are those of own data properties: none is a name inherited from \<open>Object.prototype\<close>, and
  none is an integer index, which \<open>Object.entries\<close> would list first. The keys of an object
  are distinct; the theorems about objects say so where they need it.
\<close>

type_synonym obj = "(string \<times> jsval) list"

definition get :: "obj \<Rightarrow> string \<Rightarrow> jsval" where
  "get ob k = (case map_of ob k of None \<Rightarrow> Undefined | Some v \<Rightarrow> v)"

fun put :: "obj \<Rightarrow> string \<Rightarrow> jsval \<Rightarrow> obj" where
  "put [] k v = [(k, v)]"
| "put ((k', v') # kvs) k v = (if k' = k then (k, v) # kvs else (k', v') # put kvs k v)"

definition hasOwnProperty :: "obj \<Rightarrow> string \<Rightarrow> bool" where
  "hasOwnProperty ob k \<longleftrightarrow> k \<in> set (map fst ob)"

section \<open>Errors\<close>

text \<open>What the source can throw: a \<open>TypeError\<close> (a property read on \<open>undefined\<close> or
  \<open>null\<close>, a call of something that is not a function), a \<open>SyntaxError\<close> (a body that is
  not JSON) and the rejection of \<open>fetch\<close>. A computation that may throw returns
  \<open>js_error + 'a\<close>, with \<open>Inl\<close> for the exception.\<close>

datatype js_error = TypeError | SyntaxError | NetworkError

text \<open>Sequencing: the second computation runs when the first has not thrown.\<close>

definition bind_res :: "js_error + 'a \<Rightarrow> ('a \<Rightarrow> js_error + 'b) \<Rightarrow> js_error + 'b" where
  "bind_res m f = (case m of Inl e \<Rightarrow> Inl e | Inr a \<Rightarrow> f a)"

text \<open>A sequence of statements over one object, each of which may throw.\<close>

fun run_steps :: "('a \<Rightarrow> js_error + 'a) list \<Rightarrow> 'a \<Rightarrow> js_error + 'a" where
  "run_steps [] ob = Inr ob"
| "run_steps (f # fs) ob = (case f ob of Inl e \<Rightarrow> Inl e | Inr ob' \<Rightarrow> run_steps fs ob')"

text \<open>The assignment \<open>options.k = rhs\<close>.\<close>

definition assign :: "string \<Rightarrow> (obj \<Rightarrow> js_error + jsval) \<Rightarrow> obj \<Rightarrow> js_error + obj" where
  "assign k rhs ob = (case rhs ob of Inl e \<Rightarrow> Inl e | Inr v \<Rightarrow> Inr (put ob k v))"

section \<open>Settings\<close>

definition defaultSettings :: obj where
  "defaultSettings =
     [(''findCount'', Num 30),
      (''nsfw'', Bool False),
      (''nsfl'', Bool False),
      (''nsfw_only'', Bool False),
      (''require_images'', Bool False),
      (''require_example_dialogues'', Bool False),
      (''require_alternate_greetings'', Bool False),
      (''require_custom_prompt'', Bool False),
      (''require_expressions'', Bool False),
      (''require_lore'', Bool False),
      (''require_lore_embedded'', Bool False),
      (''require_lore_linked'', Bool False),
      (''inclusive_or'', Bool False),
      (''recommended_verified'', Bool False)]"

text \<open>
  \<open>extension_settings.chub\<close> is \<open>None\<close> while the host has no such property. \<open>loadSettings\<close>
  creates it, copies every default whose key is missing and makes \<open>findCount\<close> a number.
  The built-in \<open>Number\<close> conversion is a parameter: on strings it reads floating-point
  literals, which the integer model of numbers does not hold.
\<close>

definition loadSettings :: "(jsval \<Rightarrow> jsval) \<Rightarrow> obj option \<Rightarrow> obj" where
  "loadSettings Number chub =
     (let c0 = (case chub of None \<Rightarrow> [] | Some c \<Rightarrow> c);
          c1 = fold (\<lambda>(key, value) c. if \<not> hasOwnProperty c key then put c key value else c)
                 defaultSettings c0
      in put c1 ''findCount''
           (js_or (Number (get c1 ''findCount'')) (get defaultSettings ''findCount'')))"

text \<open>The read \<open>extension_settings.chub.k\<close>, a \<open>TypeError\<close> while \<open>chub\<close> is undefined.\<close>

definition chub_get :: "obj option \<Rightarrow> string \<Rightarrow> js_error + jsval" where
  "chub_get chub k = (case chub of None \<Rightarrow> Inl TypeError | Some c \<Rightarrow> Inr (get c k))"

section \<open>Option defaults (the head of \<open>fetchCharactersBySearch\<close>)\<close>

text \<open>The flags that line 222 to 235 resolve against the settings, in that order.\<close>

definition setting_flags :: "string list" where
  "setting_flags =
     [''nsfw'', ''nsfl'', ''nsfw_only'', ''require_images'', ''require_example_dialogues'',
      ''require_alternate_greetings'', ''require_custom_prompt'', ''require_expressions'',
      ''require_lore'', ''require_lore_embedded'', ''require_lore_linked'', ''inclusive_or'',
      ''recommended_verified'']"

text \<open>\<open>options.first || extension_settings.chub.findCount || 30\<close>: the settings are read
  only when \<open>options.first\<close> is falsy.\<close>

definition first_rhs :: "obj option \<Rightarrow> obj \<Rightarrow> js_error + jsval" where
  "first_rhs chub options =
     (if truthy (get options ''first'') then Inr (get options ''first'')
      else case chub_get chub ''findCount'' of
             Inl e \<Rightarrow> Inl e
           | Inr v \<Rightarrow> Inr (js_or v (Num 30)))"

text \<open>\<open>typeof options.k === 'boolean' ? options.k : extension_settings.chub.k\<close>.\<close>

definition flag_rhs :: "obj option \<Rightarrow> string \<Rightarrow> obj \<Rightarrow> js_error + jsval" where
  "flag_rhs chub k options =
     (if is_boolean (get options k) then Inr (get options k) else chub_get chub k)"

text \<open>\<open>typeof options.k === 'boolean' ? options.k : d\<close>, for \<open>asc\<close> and \<open>include_forks\<close>.\<close>

definition bool_or_const :: "string \<Rightarrow> bool \<Rightarrow> obj \<Rightarrow> js_error + jsval" where
  "bool_or_const k d options =
     (if is_boolean (get options k) then Inr (get options k) else Inr (Bool d))"

text \<open>\<open>options.k || d\<close>, for \<open>sort\<close> and \<open>page\<close>.\<close>

definition or_const :: "string \<Rightarrow> jsval \<Rightarrow> obj \<Rightarrow> js_error + jsval" where
  "or_const k d options = Inr (js_or (get options k) d)"

text \<open>Lines 221 to 241 of \<open>fetchCharactersBySearch\<close>: the assignments that fill the
  options object in, in source order. The source updates the caller's object in place;
  the result here is the updated object, or the exception of the first read that throws.\<close>

definition normalizeOptions :: "obj option \<Rightarrow> obj \<Rightarrow> js_error + obj" where
  "normalizeOptions chub options =
     run_steps
       ([assign ''first'' (first_rhs chub)]
        @ map (\<lambda>k. assign k (flag_rhs chub k)) setting_flags
        @ [assign ''sort'' (or_const ''sort'' (Str ''download_count'')),
           assign ''page'' (or_const ''page'' (Num 1)),
           assign ''asc'' (bool_or_const ''asc'' False),
           assign ''include_forks'' (bool_or_const ''include_forks'' True)])
       options"

section \<open>The query encoder (\<open>buildQueryString\<close>)\<close>

definition paramMap :: "(string \<times> string) list" where
  "paramMap =
     [(''searchTerm'', ''search''),
      (''name_like'', ''name_like''),
      (''first'', ''first''),
      (''min_users_chatted'', ''min_users_chatted''),
      (''includeTags'', ''tags''),
      (''excludeTags'', ''exclude_tags''),
      (''page'', ''page''),
      (''sort'', ''sort''),
      (''asc'', ''asc''),
      (''include_forks'', ''include_forks''),
      (''nsfw'', ''nsfw''),
      (''nsfl'', ''nsfl''),
      (''nsfw_only'', ''nsfw_only''),
      (''require_images'', ''require_images''),
      (''require_example_dialogues'', ''require_example_dialogues''),
      (''require_alternate_greetings'', ''require_alternate_greetings''),
      (''require_custom_prompt'', ''require_custom_prompt''),
      (''max_days_ago'', ''max_days_ago''),
      (''exclude_mine'', ''exclude_mine''),
      (''only_mine'', ''only_mine''),
      (''min_tokens'', ''min_tokens''),
      (''max_tokens'', ''max_tokens''),
      (''require_expressions'', ''require_expressions''),
      (''require_lore'', ''require_lore''),
      (''mine_first'', ''mine_first''),
      (''require_lore_embedded'', ''require_lore_embedded''),
      (''require_lore_linked'', ''require_lore_linked''),
      (''my_favorites'', ''my_favorites''),
      (''topics'', ''topics''),
      (''excludetopics'', ''excludetopics''),
      (''creator_id'', ''creator_id''),
      (''username'', ''username''),
      (''inclusive_or'', ''inclusive_or''),
      (''recommended_verified'', ''recommended_verified''),
      (''min_tags'', ''min_tags''),
      (''min_ai_rating'', ''min_ai_rating''),
      (''language'', ''language'')]"

definition tag_keys :: "string list" where
  "tag_keys = [''tags'', ''exclude_tags'', ''topics'', ''excludetopics'']"

definition numeric_keys :: "string list" where
  "numeric_keys =
     [''min_tokens'', ''max_tokens'', ''min_tags'', ''min_users_chatted'', ''max_days_ago'',
      ''creator_id'', ''min_ai_rating'']"

text \<open>
  One round of the loop over \<open>Object.entries(options)\<close>: the entries that the round appends
  to \<open>params\<close> (none or one), each value converted to a string as \<open>append\<close> does.
\<close>

definition encode_entry :: "string \<times> jsval \<Rightarrow> (string \<times> string) list" where
  "encode_entry e =
     (case e of (optionKey, v) \<Rightarrow>
        (case map_of paramMap optionKey of
           None \<Rightarrow> []
         | Some apiKey \<Rightarrow>
             if apiKey \<noteq> [] \<and> (v \<noteq> Null \<and> v \<noteq> Undefined \<and> v \<noteq> Str [])
             then
               if apiKey \<in> set tag_keys \<and> isArray v
               then (case v of
                       Arr tags \<Rightarrow>
                         if length tags > 0
                         then (let tagsString =
                                     take 500 (join_comma (filter (\<lambda>tag. length tag > 0) tags))
                               in if tagsString \<noteq> [] then [(apiKey, tagsString)] else [])
                         else []
                     | _ \<Rightarrow> [])
               else if apiKey \<in> set numeric_keys
               then (let numValue = parseInt v
                     in if \<not> isNaN numValue then [(apiKey, ToString numValue)] else [])
               else if is_boolean v
               then [(apiKey, ToString v)]
               else [(apiKey, ToString v)]
             else []))"

text \<open>The list of \<open>params\<close> when the loop ends.\<close>

definition buildQueryParams :: "obj \<Rightarrow> (string \<times> string) list" where
  "buildQueryParams options = concat (map encode_entry options)"

text \<open>
  \<open>params.toString()\<close>: the \<open>application/x-www-form-urlencoded\<close> serialisation. Letters,
  digits and \<open>* - . _\<close> stand for themselves, a space becomes \<open>+\<close>, and every other code
  unit is written as the percent-encoded bytes of its UTF-8 form.
\<close>

definition hex_digit :: "nat \<Rightarrow> char" where
  "hex_digit d = ''0123456789ABCDEF'' ! (d mod 16)"

definition utf8_bytes :: "char \<Rightarrow> nat list" where
  "utf8_bytes c =
     (let n = (of_char c :: nat)
      in if n < 128 then [n] else [192 + n div 64, 128 + n mod 64])"

definition percent_byte :: "nat \<Rightarrow> string" where
  "percent_byte b = [CHR ''%'', hex_digit (b div 16), hex_digit (b mod 16)]"

definition urlencoded_unreserved :: "char \<Rightarrow> bool" where
  "urlencoded_unreserved c \<longleftrightarrow>
     c \<in> set ''ABCDEFGHIJKLMNOPQRSTUVWXYZabcdefghijklmnopqrstuvwxyz0123456789*-._''"

definition urlencode :: "string \<Rightarrow> string" where
  "urlencode s =
     concat (map (\<lambda>c. if urlencoded_unreserved c then [c]
                      else if c = CHR '' '' then ''+''
                      else concat (map percent_byte (utf8_bytes c))) s)"

fun join_amp :: "string list \<Rightarrow> string" where
  "join_amp [] = []"
| "join_amp [s] = s"
| "join_amp (s # t # ts) = s @ ''&'' @ join_amp (t # ts)"

definition URLSearchParams_toString :: "(string \<times> string) list \<Rightarrow> string" where
  "URLSearchParams_toString params =
     join_amp (map (\<lambda>(k, v). urlencode k @ ''='' @ urlencode v) params)"

definition buildQueryString :: "obj \<Rightarrow> string" where
  "buildQueryString options = URLSearchParams_toString (buildQueryParams options)"

section \<open>Reading a number field of the form (\<open>getInt\<close> in \<open>handleSearch\<close>)\<close>

text \<open>\<open>val\<close> is \<open>document.getElementById(id)?.value\<close>: the text of the field, or
  \<open>undefined\<close> when the element is missing.\<close>

definition getInt :: "jsval \<Rightarrow> jsval" where
  "getInt val = (if truthy val then parseInt val else Null)"

section \<open>Values of a response body\<close>

text \<open>
  What \<open>response.json()\<close> yields, with \<open>undefined\<close> for the value of a missing property.
  Numbers are integers here too; the code reads no number of a response but for its
  truth value.
\<close>

datatype json =
    JUndefined
  | JNull
  | JBool bool
  | JNum int
  | JStr string
  | JArr "json list"
  | JObj "(string \<times> json) list"

fun json_truthy :: "json \<Rightarrow> bool" where
  "json_truthy JUndefined = False"
| "json_truthy JNull = False"
| "json_truthy (JBool b) = b"
| "json_truthy (JNum n) = (n \<noteq> 0)"
| "json_truthy (JStr s) = (s \<noteq> [])"
| "json_truthy (JArr xs) = True"
| "json_truthy (JObj kvs) = True"

definition json_or :: "json \<Rightarrow> json \<Rightarrow> json" where
  "json_or a b = (if json_truthy a then a else b)"

text \<open>
  The property read \<open>v.k\<close>, for the names the source reads (\<open>nodes\<close>, \<open>data\<close>, \<open>message\<close>,
  \<open>avatar_url\<close>, \<open>avatar\<close>, \<open>tagline\<close>, \<open>name\<close>, \<open>fullPath\<close>, \<open>topics\<close>, \<open>length\<close>): a
  \<open>TypeError\<close> on \<open>undefined\<close> and \<open>null\<close>, the entry of an object, the length of a string
  or an array, and \<open>undefined\<close> otherwise.
\<close>

fun get_prop :: "json \<Rightarrow> string \<Rightarrow> js_error + json" where
  "get_prop JUndefined k = Inl TypeError"
| "get_prop JNull k = Inl TypeError"
| "get_prop (JObj kvs) k = Inr (case map_of kvs k of None \<Rightarrow> JUndefined | Some v \<Rightarrow> v)"
| "get_prop (JArr xs) k = Inr (if k = ''length'' then JNum (int (length xs)) else JUndefined)"
| "get_prop (JStr s) k = Inr (if k = ''length'' then JNum (int (length s)) else JUndefined)"
| "get_prop (JBool b) k = Inr JUndefined"
| "get_prop (JNum n) k = Inr JUndefined"

text \<open>The string conversion of a template literal; \<open>join\<close> prints \<open>null\<close> and \<open>undefined\<close>
  elements as empty strings.\<close>

fun json_ToString :: "json \<Rightarrow> string" where
  "json_ToString JUndefined = ''undefined''"
| "json_ToString JNull = ''null''"
| "json_ToString (JBool b) = (if b then ''true'' else ''false'')"
| "json_ToString (JNum n) = show_int n"
| "json_ToString (JStr s) = s"
| "json_ToString (JArr xs) =
     join_comma (map (\<lambda>x. if x = JNull \<or> x = JUndefined then [] else json_ToString x) xs)"
| "json_ToString (JObj kvs) = ''[object Object]''"

text \<open>\<open>s.split(sep)\<close> for a separator that is not empty: the pieces between the
  occurrences of \<open>sep\<close>, found from left to right.\<close>

function split_from :: "string \<Rightarrow> string \<Rightarrow> string \<Rightarrow> string list" where
  "split_from sep acc [] = [rev acc]"
| "split_from sep acc (c # cs) =
     (if sep \<noteq> [] \<and> take (length sep) (c # cs) = sep
      then rev acc # split_from sep [] (drop (length sep) (c # cs))
      else split_from sep (c # acc) cs)"
  by pat_completeness auto
termination
  by (relation "measure (\<lambda>(sep, acc, s). length s)") auto

definition split :: "string \<Rightarrow> string \<Rightarrow> string list" where
  "split s sep = split_from sep [] s"

section \<open>The remote service and the page\<close>

record blob_data =
  bytes :: string
  mime :: string

text \<open>A response: \<open>json()\<close> and \<open>blob()\<close> may reject; \<open>headers.get\<close> gives \<open>null\<close> (\<open>None\<close>)
  for a header that is not there.\<close>

record response =
  ok :: bool
  status :: nat
  statusText :: string
  headers :: "string \<Rightarrow> string option"
  json :: "js_error + json"
  blob :: "js_error + blob_data"

record request =
  req_url :: string
  req_method :: string
  req_headers :: "(string \<times> string) list"
  req_body :: "string option"

text \<open>\<open>fetch\<close>: the network answers a request with a response, or the promise rejects.\<close>

type_synonym network = "request \<Rightarrow> js_error + response"

datatype toast_kind = info | warning | error

datatype click_action = window_open string string

text \<open>A call \<open>toastr.kind(message, title, {onclick})\<close>.\<close>

record toast =
  kind :: toast_kind
  message :: string
  title :: "string option"
  onclick :: "click_action option"

record File =
  file_data :: blob_data
  file_name :: string
  file_type :: string

record CharacterRecord =
  url :: json
  description :: json
  name :: json
  fullPath :: json
  tags :: json
  author :: json

text \<open>The element of the result list: whether it is in the document, and its classes.\<close>

record container =
  in_document :: bool
  classList :: "string list"

text \<open>
  The state the functions share: the module variables \<open>chubCharacters\<close> and
  \<open>characterListContainer\<close>, and the calls made so far, oldest first, to \<open>toastr\<close>
  (\<open>notified\<close>), to \<open>fetch\<close> (\<open>fetched\<close>) and to \<open>processDroppedFiles\<close> (\<open>dropped\<close>).
\<close>

record world =
  chubCharacters :: "CharacterRecord list"
  characterListContainer :: "container option"
  notified :: "toast list"
  fetched :: "request list"
  dropped :: "File list list"

definition toastr :: "toast \<Rightarrow> world \<Rightarrow> world" where
  "toastr t w = w\<lparr>notified := notified w @ [t]\<rparr>"

definition fetch :: "network \<Rightarrow> request \<Rightarrow> world \<Rightarrow> (js_error + response) \<times> world" where
  "fetch net rq w = (net rq, w\<lparr>fetched := fetched w @ [rq]\<rparr>)"

definition processDroppedFiles :: "File list \<Rightarrow> world \<Rightarrow> world" where
  "processDroppedFiles fs w = w\<lparr>dropped := dropped w @ [fs]\<rparr>"

definition classList_add :: "string \<Rightarrow> container \<Rightarrow> container" where
  "classList_add c el =
     (if c \<in> set (classList el) then el else el\<lparr>classList := classList el @ [c]\<rparr>)"

definition classList_remove :: "string \<Rightarrow> container \<Rightarrow> container" where
  "classList_remove c el = el\<lparr>classList := filter (\<lambda>x. x \<noteq> c) (classList el)\<rparr>"

section \<open>The result normaliser and the search (\<open>fetchCharactersBySearch\<close>)\<close>

definition extensionName :: string where
  "extensionName = ''Work-SillyTavern-Chub-Search''"

definition extensionFolderPath :: string where
  "extensionFolderPath = ''scripts/extensions/'' @ extensionName @ ''/''"

definition API_ENDPOINT_SEARCH :: string where
  "API_ENDPOINT_SEARCH = ''https://inference.chub.ai/search''"

definition placeholder :: string where
  "placeholder = extensionFolderPath @ ''placeholder.png''"

text \<open>Line 271: \<open>searchData.nodes || (searchData.data ? searchData.data.nodes : null)\<close>.\<close>

definition lookup_nodes :: "json \<Rightarrow> js_error + json" where
  "lookup_nodes searchData =
     (case get_prop searchData ''nodes'' of
        Inl e \<Rightarrow> Inl e
      | Inr n \<Rightarrow>
          if json_truthy n then Inr n
          else (case get_prop searchData ''data'' of
                  Inl e \<Rightarrow> Inl e
                | Inr d \<Rightarrow> if json_truthy d then get_prop d ''nodes'' else Inr JNull))"

text \<open>
  The calls \<open>imageUrl.startsWith(..)\<close> and \<open>node.fullPath.split('/')\<close>: only a string has
  these methods, any other value makes the call a \<open>TypeError\<close>.
\<close>

definition startsWith :: "json \<Rightarrow> string \<Rightarrow> js_error + bool" where
  "startsWith v p =
     (case v of JStr s \<Rightarrow> Inr (take (length p) s = p) | _ \<Rightarrow> Inl TypeError)"

definition json_split :: "json \<Rightarrow> string \<Rightarrow> js_error + string list" where
  "json_split v sep = (case v of JStr s \<Rightarrow> Inr (split s sep) | _ \<Rightarrow> Inl TypeError)"

text \<open>
  The function that line 282 to 303 map over the nodes. The body of the \<open>if\<close> on the
  image URL is empty in the source, but its condition is evaluated: \<open>imageUrl\<close> is always
  truthy there, so \<open>startsWith('http')\<close> is called, and \<open>startsWith('blob:')\<close> when the first
  call returns false.
\<close>

definition check_imageUrl :: "json \<Rightarrow> js_error + unit" where
  "check_imageUrl imageUrl =
     (if json_truthy imageUrl
      then (case startsWith imageUrl ''http'' of
              Inl e \<Rightarrow> Inl e
            | Inr b \<Rightarrow>
                if \<not> b
                then (case startsWith imageUrl ''blob:'' of Inl e \<Rightarrow> Inl e | Inr b' \<Rightarrow> Inr ())
                else Inr ())
      else Inr ())"

text \<open>Line 301: \<open>node.fullPath ? node.fullPath.split('/')[0] : "Unknown Author"\<close>. A split
  has at least one piece.\<close>

definition derive_author :: "json \<Rightarrow> js_error + json" where
  "derive_author fp =
     (if json_truthy fp
      then (case json_split fp ''/'' of
              Inl e \<Rightarrow> Inl e
            | Inr parts \<Rightarrow> Inr (case parts of [] \<Rightarrow> JUndefined | p # ps \<Rightarrow> JStr p))
      else Inr (JStr ''Unknown Author''))"

definition normalize_node :: "json \<Rightarrow> js_error + CharacterRecord" where
  "normalize_node node =
     bind_res (get_prop node ''avatar_url'') (\<lambda>avatar_url.
     bind_res (get_prop node ''avatar'') (\<lambda>avatar.
     let imageUrl = json_or avatar_url (json_or avatar (JStr placeholder)) in
     bind_res (check_imageUrl imageUrl) (\<lambda>u.
     bind_res (get_prop node ''tagline'') (\<lambda>tagline.
     bind_res (get_prop node ''name'') (\<lambda>nm.
     bind_res (get_prop node ''fullPath'') (\<lambda>fp.
     bind_res (get_prop node ''topics'') (\<lambda>topics.
     bind_res (derive_author fp) (\<lambda>au.
       Inr \<lparr>url = imageUrl,
            description = json_or tagline (JStr ''No description.''),
            name = json_or nm (JStr ''Unnamed Character''),
            fullPath = fp,
            tags = json_or topics (JArr []),
            author = au\<rparr>))))))))"

text \<open>\<open>nodes.map(f)\<close>: \<open>f\<close> on each element in order, stopping at the first exception;
  a value that is not an array has no \<open>map\<close> method.\<close>

fun map_res :: "('a \<Rightarrow> js_error + 'b) \<Rightarrow> 'a list \<Rightarrow> js_error + 'b list" where
  "map_res f [] = Inr []"
| "map_res f (x # xs) =
     (case f x of
        Inl e \<Rightarrow> Inl e
      | Inr y \<Rightarrow> (case map_res f xs of Inl e \<Rightarrow> Inl e | Inr ys \<Rightarrow> Inr (y # ys)))"

definition nodes_map :: "json \<Rightarrow> js_error + CharacterRecord list" where
  "nodes_map nodes = (case nodes of JArr xs \<Rightarrow> map_res normalize_node xs | _ \<Rightarrow> Inl TypeError)"

text \<open>Line 264 to 305, inside the \<open>try\<close>: from the parsed body to the records. The
  variable \<open>chubCharacters\<close> is emptied first and holds the records at the end.\<close>

definition normalize_response ::
    "json \<Rightarrow> world \<Rightarrow> (js_error + CharacterRecord list) \<times> world" where
  "normalize_response searchData w =
     (let w1 = w\<lparr>chubCharacters := []\<rparr> in
      case lookup_nodes searchData of
        Inl e \<Rightarrow> (Inl e, w1)
      | Inr nodes \<Rightarrow>
          if \<not> json_truthy nodes then (Inr (chubCharacters w1), w1)
          else (case get_prop nodes ''length'' of
                  Inl e \<Rightarrow> (Inl e, w1)
                | Inr len \<Rightarrow>
                    if len = JNum 0 then (Inr (chubCharacters w1), w1)
                    else (case nodes_map nodes of
                            Inl e \<Rightarrow> (Inl e, w1)
                          | Inr cs \<Rightarrow> (Inr cs, w1\<lparr>chubCharacters := cs\<rparr>))))"

text \<open>Line 252 to 262: the answer to a response that is not \<open>ok\<close>. The inner \<open>try\<close> reads
  the body for a message; when that throws, the inner \<open>catch\<close> reports the status text.\<close>

definition failure_detail :: "response \<Rightarrow> string" where
  "failure_detail r =
     (case json r of
        Inl e \<Rightarrow> statusText r
      | Inr errorData \<Rightarrow>
          (case get_prop errorData ''message'' of
             Inl e \<Rightarrow> statusText r
           | Inr m \<Rightarrow> if json_truthy m then json_ToString m else statusText r))"

definition failure_toast :: "response \<Rightarrow> toast" where
  "failure_toast r =
     \<lparr>kind = error, message = ''CHub search failed: '' @ failure_detail r,
      title = Some ''API Error'', onclick = None\<rparr>"

definition report_failure :: "response \<Rightarrow> world \<Rightarrow> world" where
  "report_failure r w = toastr (failure_toast r) w"

text \<open>The outer \<open>catch\<close> (line 307 to 311).\<close>

definition exception_toast :: toast where
  "exception_toast =
     \<lparr>kind = error, message = ''An error occurred while searching CHub.'',
      title = Some ''Fetch Error'', onclick = None\<rparr>"

definition report_exception :: "world \<Rightarrow> world" where
  "report_exception w = toastr exception_toast w"

text \<open>
  \<open>fetchCharactersBySearch\<close>. The option defaults and the query are computed outside the
  \<open>try\<close>, so an exception there leaves the function; every exception of the \<open>try\<close> block ends
  in the \<open>catch\<close>, which returns an empty array. The request is a \<open>GET\<close> of the search
  endpoint with the query appended.
\<close>

definition search_request :: "obj \<Rightarrow> request" where
  "search_request options =
     \<lparr>req_url = API_ENDPOINT_SEARCH @ ''?'' @ buildQueryString options, req_method = ''GET'',
      req_headers = [], req_body = None\<rparr>"

definition fetchCharactersBySearch ::
    "network \<Rightarrow> obj option \<Rightarrow> obj \<Rightarrow> world \<Rightarrow> (js_error + CharacterRecord list) \<times> world" where
  "fetchCharactersBySearch net chub options w =
     (case normalizeOptions chub options of
        Inl e \<Rightarrow> (Inl e, w)
      | Inr options' \<Rightarrow>
          (case fetch net (search_request options') w of
             (Inl e, w1) \<Rightarrow> (Inr [], report_exception w1)
           | (Inr searchResponse, w1) \<Rightarrow>
               if \<not> ok searchResponse then (Inr [], report_failure searchResponse w1)
               else (case json searchResponse of
                       Inl e \<Rightarrow> (Inr [], report_exception w1)
                     | Inr searchData \<Rightarrow>
                         (case normalize_response searchData w1 of
                            (Inl e, w2) \<Rightarrow> (Inr [], report_exception w2)
                          | (Inr cs, w2) \<Rightarrow> (Inr cs, w2)))))"

section \<open>\<open>searchCharacters\<close>\<close>

text \<open>
  Before the fetch (line 321 to 328) the container is forgotten when it has left the
  document, and the class \<open>searching\<close> is put on it otherwise; after the fetch (line 331 to
  333) the class is taken off. An exception of the fetch function leaves
  \<open>searchCharacters\<close> before the class is taken off. Nothing else runs between the two steps
  in this model.
\<close>

definition search_enter :: "world \<Rightarrow> world" where
  "search_enter w =
     (let w1 = (case characterListContainer w of
                  Some el \<Rightarrow> if \<not> in_document el then w\<lparr>characterListContainer := None\<rparr> else w
                | None \<Rightarrow> w)
      in case characterListContainer w1 of
           Some el \<Rightarrow> w1\<lparr>characterListContainer := Some (classList_add ''searching'' el)\<rparr>
         | None \<Rightarrow> w1)"

definition search_exit :: "world \<Rightarrow> world" where
  "search_exit w =
     (case characterListContainer w of
        Some el \<Rightarrow> w\<lparr>characterListContainer := Some (classList_remove ''searching'' el)\<rparr>
      | None \<Rightarrow> w)"

definition searchCharacters ::
    "network \<Rightarrow> obj option \<Rightarrow> obj \<Rightarrow> world \<Rightarrow> (js_error + CharacterRecord list) \<times> world" where
  "searchCharacters net chub options w =
     (case fetchCharactersBySearch net chub options (search_enter w) of
        (Inl e, w3) \<Rightarrow> (Inl e, w3)
      | (Inr characters, w3) \<Rightarrow> (Inr characters, search_exit w3))"

text \<open>Whether the result list shows as searching.\<close>

definition searching :: "world \<Rightarrow> bool" where
  "searching w =
     (case characterListContainer w of
        None \<Rightarrow> False
      | Some el \<Rightarrow> ''searching'' \<in> set (classList el))"

section \<open>\<open>downloadCharacter\<close>\<close>

text \<open>\<open>JSON.stringify\<close> of a string and of the object \<open>{ url }\<close>.\<close>

definition hex_lower :: "nat \<Rightarrow> char" where
  "hex_lower d = ''0123456789abcdef'' ! (d mod 16)"

definition json_escape :: "char \<Rightarrow> string" where
  "json_escape c =
     (if c = CHR 0x22 then [CHR 0x5C, CHR 0x22]
      else if c = CHR 0x5C then [CHR 0x5C, CHR 0x5C]
      else if c = CHR 0x08 then [CHR 0x5C, CHR ''b'']
      else if c = CHR 0x0C then [CHR 0x5C, CHR ''f'']
      else if c = CHR 0x0A then [CHR 0x5C, CHR ''n'']
      else if c = CHR 0x0D then [CHR 0x5C, CHR ''r'']
      else if c = CHR 0x09 then [CHR 0x5C, CHR ''t'']
      else if (of_char c :: nat) < 32
      then [CHR 0x5C, CHR ''u'', CHR ''0'', CHR ''0'',
            hex_lower ((of_char c :: nat) div 16), hex_lower ((of_char c :: nat) mod 16)]
      else [c])"

definition json_quote :: "string \<Rightarrow> string" where
  "json_quote s = [CHR 0x22] @ concat (map json_escape s) @ [CHR 0x22]"

definition stringify_url :: "string \<Rightarrow> string" where
  "stringify_url u = ''{'' @ json_quote ''url'' @ '':'' @ json_quote u @ ''}''"

definition import_request :: "string \<Rightarrow> (string \<times> string) list \<Rightarrow> string \<Rightarrow> request" where
  "import_request endpoint hdrs u =
     \<lparr>req_url = endpoint, req_method = ''POST'', req_headers = hdrs,
      req_body = Some (stringify_url u)\<rparr>"

text \<open>Line 99: \<open>headers.get('Content-Disposition').split('filename=')[1].replace(/"/g, '')\<close>.
  A missing header gives \<open>null\<close>, and a header without \<open>filename=\<close> gives \<open>undefined\<close> at
  index 1; the method call on either is a \<open>TypeError\<close>.\<close>

definition content_disposition_fileName :: "response \<Rightarrow> js_error + string" where
  "content_disposition_fileName r =
     (case headers r ''Content-Disposition'' of
        None \<Rightarrow> Inl TypeError
      | Some h \<Rightarrow>
          (case split h ''filename='' of
             p0 # p1 # ps \<Rightarrow> Inr (filter (\<lambda>c. c \<noteq> CHR 0x22) p1)
           | _ \<Rightarrow> Inl TypeError))"

text \<open>The two calls of \<open>toastr\<close> in \<open>downloadCharacter\<close>: the notice of line 92, whose click opens
  the page of the character, and the warning of line 107.\<close>

definition failure_notice :: "string \<Rightarrow> toast" where
  "failure_notice u =
     \<lparr>kind = info, message = ''Click to go to the character page'',
      title = Some ''Custom content import failed'',
      onclick = Some (window_open (''https://www.chub.ai/characters/'' @ u) ''_blank'')\<rparr>"

definition unknown_type_warning :: toast where
  "unknown_type_warning =
     \<lparr>kind = warning, message = ''Unknown content type'', title = None, onclick = None\<rparr>"

text \<open>
  \<open>downloadCharacter\<close>. \<open>hdrs\<close> is what \<open>getRequestHeaders()\<close> returns. None of the awaits is
  inside a \<open>try\<close>, so a rejected \<open>fetch\<close> or \<open>blob()\<close> and a \<open>TypeError\<close> on line 99 leave the
  function as exceptions.
\<close>

definition downloadCharacter ::
    "network \<Rightarrow> (string \<times> string) list \<Rightarrow> string \<Rightarrow> world \<Rightarrow> (js_error + unit) \<times> world" where
  "downloadCharacter net hdrs input w =
     (let u = trim input in
      case fetch net (import_request ''/api/content/importUUID'' hdrs u) w of
        (Inl e, w1) \<Rightarrow> (Inl e, w1)
      | (Inr request1, w1) \<Rightarrow>
     (case (if \<not> ok request1 then fetch net (import_request ''/import_custom'' hdrs u) w1
            else (Inr request1, w1)) of
        (Inl e, w2) \<Rightarrow> (Inl e, w2)
      | (Inr request, w2) \<Rightarrow>
          if \<not> ok request
          then (Inr (), toastr (failure_notice u) w2)
          else (case blob request of
                  Inl e \<Rightarrow> (Inl e, w2)
                | Inr data \<Rightarrow>
                    (let customContentType = headers request ''X-Custom-Content-Type'' in
                     case content_disposition_fileName request of
                       Inl e \<Rightarrow> (Inl e, w2)
                     | Inr fileName \<Rightarrow>
                         (let f = \<lparr>file_data = data, file_name = fileName,
                                   file_type = mime data\<rparr>
                          in if customContentType = Some ''character''
                             then (Inr (), processDroppedFiles [f] w2)
                             else (Inr (), toastr unknown_type_warning w2))))))"

section \<open>Observations used in the statements\<close>

text \<open>The value of \<open>options.f\<close> when the option defaults are done, or the exception.\<close>

definition normalized_flag :: "obj option \<Rightarrow> obj \<Rightarrow> string \<Rightarrow> js_error + jsval" where
  "normalized_flag chub raw f =
     (case normalizeOptions chub raw of Inl e \<Rightarrow> Inl e | Inr ob \<Rightarrow> Inr (get ob f))"

text \<open>The persisted value of a setting (\<open>undefined\<close> while there is no store).\<close>

definition setting :: "obj option \<Rightarrow> string \<Rightarrow> jsval" where
  "setting chub k = (case chub of None \<Rightarrow> Undefined | Some c \<Rightarrow> get c k)"

text \<open>What the option defaults make of the value \<open>v\<close> of \<open>options.k\<close>, when they return.\<close>

definition resolved :: "obj option \<Rightarrow> string \<Rightarrow> jsval \<Rightarrow> jsval" where
  "resolved chub k v =
     (if k = ''first'' then (if truthy v then v else js_or (setting chub ''findCount'') (Num 30))
      else if k \<in> set setting_flags then (if is_boolean v then v else setting chub k)
      else if k = ''sort'' then js_or v (Str ''download_count'')
      else if k = ''page'' then js_or v (Num 1)
      else if k = ''asc'' then (if is_boolean v then v else Bool False)
      else if k = ''include_forks'' then (if is_boolean v then v else Bool True)
      else v)"

text \<open>The assignments of the option defaults as pairs of a key and a right-hand side.\<close>

definition default_steps :: "obj option \<Rightarrow> (string \<times> (obj \<Rightarrow> js_error + jsval)) list" where
  "default_steps chub =
     [(''first'', first_rhs chub)]
     @ map (\<lambda>k. (k, flag_rhs chub k)) setting_flags
     @ [(''sort'', or_const ''sort'' (Str ''download_count'')),
        (''page'', or_const ''page'' (Num 1)),
        (''asc'', bool_or_const ''asc'' False),
        (''include_forks'', bool_or_const ''include_forks'' True)]"

text \<open>
  From the words of the specification (``a strict base-10 integer parser''), for the
  comparison with \<open>parseInt\<close>: a strict parser accepts an optional sign followed by decimal
  digits and nothing else.
\<close>

definition strict_parseInt :: "string \<Rightarrow> int option" where
  "strict_parseInt s =
     (let neg = (case s of [] \<Rightarrow> False | c # cs \<Rightarrow> c = CHR ''-'');
          ds = (case s of [] \<Rightarrow> [] | c # cs \<Rightarrow> if c = CHR ''+'' \<or> c = CHR ''-'' then cs else s)
      in if ds \<noteq> [] \<and> list_all is_digit ds
         then Some (if neg then - int (digits_value ds) else int (digits_value ds))
         else None)"

text \<open>The six numeric filter fields of the search form.\<close>

definition numeric_fields :: "string list" where
  "numeric_fields =
     [''min_tokens'', ''max_tokens'', ''min_tags'', ''min_users_chatted'', ''max_days_ago'',
      ''min_ai_rating'']"

text \<open>The value that the read \<open>node.k\<close> gives (\<open>undefined\<close> where the read throws).\<close>

definition node_field :: "json \<Rightarrow> string \<Rightarrow> json" where
  "node_field node k = (case get_prop node k of Inl e \<Rightarrow> JUndefined | Inr v \<Rightarrow> v)"

text \<open>The network that gives the same answer to every request.\<close>

definition answering :: "js_error + response \<Rightarrow> network" where
  "answering a rq = a"

text \<open>For the instances: a successful response with the given body and no headers, and
  the page with the popup open and nothing done yet.\<close>

definition ok_response :: "json \<Rightarrow> response" where
  "ok_response body =
     \<lparr>ok = True, status = 200, statusText = ''OK'', headers = (\<lambda>h. None), json = Inr body,
      blob = Inr \<lparr>bytes = [], mime = []\<rparr>\<rparr>"

definition popup_open :: world where
  "popup_open =
     \<lparr>chubCharacters = [],
      characterListContainer =
        Some \<lparr>in_document = True, classList = [''character-list-popup'', ''chub-list-popup'']\<rparr>,
      notified = [], fetched = [], dropped = []\<rparr>"

text \<open>For the instances: a host whose primary import endpoint gives one response and
  whose other endpoints give another.\<close>

definition host :: "response \<Rightarrow> response \<Rightarrow> network" where
  "host primary legacy rq =
     (if req_url rq = ''/api/content/importUUID'' then Inr primary else Inr legacy)"

text \<open>A 404 response, and a successful import response that carries a character card.\<close>

definition not_found :: response where
  "not_found = (ok_response JNull)\<lparr>ok := False, status := 404, statusText := ''Not Found''\<rparr>"

definition card_response :: response where
  "card_response =
     \<lparr>ok = True, status = 200, statusText = ''OK'',
      headers = [''Content-Disposition'' \<mapsto>
                   ''attachment; filename='' @ [CHR 0x22] @ ''card.png'' @ [CHR 0x22],
                 ''X-Custom-Content-Type'' \<mapsto> ''character''],
      json = Inl SyntaxError,
      blob = Inr \<lparr>bytes = ''PNG'', mime = ''image/png''\<rparr>\<rparr>"

text \<open>A successful import response of another content type, without a
  \<open>Content-Disposition\<close> header.\<close>

definition lorebook_response :: response where
  "lorebook_response =
     \<lparr>ok = True, status = 200, statusText = ''OK'',
      headers = [''X-Custom-Content-Type'' \<mapsto> ''lorebook''],
      json = Inl SyntaxError,
      blob = Inr \<lparr>bytes = ''{}'', mime = ''application/json''\<rparr>\<rparr>"

section \<open>Objects and the option defaults\<close>

lemma get_put: "get (put ob k v) k' = (if k' = k then v else get ob k')"
  by (induction ob) (auto simp: get_def)

lemma keys_put: "fst ` set (put ob k v) = insert k (fst ` set ob)"
  by (induction ob k v rule: put.induct) (simp_all add: insert_commute)

lemma hasOwnProperty_put: "hasOwnProperty (put ob k v) k' \<longleftrightarrow> k' = k \<or> hasOwnProperty ob k'"
  by (auto simp: hasOwnProperty_def keys_put)

lemma normalizeOptions_steps:
  "normalizeOptions chub options = run_steps (map (\<lambda>(k, rhs). assign k rhs) (default_steps chub)) options"
  by (simp add: normalizeOptions_def default_steps_def comp_def)


lemma run_steps_assign_get:
  assumes "list_all (\<lambda>(k, rhs). \<forall>ob. rhs ob = Inr (g k (get ob k)) \<or> (\<exists>e. rhs ob = Inl e)) steps"
    and "distinct (map fst steps)"
    and "run_steps (map (\<lambda>(k, rhs). assign k rhs) steps) ob = Inr ob'"
  shows "get ob' k = (if k \<in> fst ` set steps then g k (get ob k) else get ob k)"
  using assms
proof (induction steps arbitrary: ob)
  case Nil
  then show ?case by simp
next
  case (Cons st steps)
  obtain k0 rhs0 where st: "st = (k0, rhs0)" by (cases st)
  from Cons.prems(3) st obtain ob1 where a: "assign k0 rhs0 ob = Inr ob1"
    and r: "run_steps (map (\<lambda>(k, rhs). assign k rhs) steps) ob1 = Inr ob'"
    by (auto split: sum.splits)
  from a obtain v where v: "rhs0 ob = Inr v" and ob1: "ob1 = put ob k0 v"
    by (auto simp: assign_def split: sum.splits)
  from Cons.prems(1) st
  have "rhs0 ob = Inr (g k0 (get ob k0)) \<or> (\<exists>e. rhs0 ob = Inl e)" by simp
  with v have v': "v = g k0 (get ob k0)" by auto
  have d: "distinct (map fst steps)" and nin: "k0 \<notin> fst ` set steps"
    using Cons.prems(2) st by auto
  have ih: "get ob' k = (if k \<in> fst ` set steps then g k (get ob1 k) else get ob1 k)"
    by (rule Cons.IH[OF _ d r]) (use Cons.prems(1) in simp)
  show ?case
    using ih nin by (auto simp: st ob1 v' get_put)
qed

lemma run_steps_assign_total:
  assumes "list_all (\<lambda>(k, rhs). \<forall>ob. \<exists>v. rhs ob = Inr v) steps"
  shows "\<exists>ob'. run_steps (map (\<lambda>(k, rhs). assign k rhs) steps) ob = Inr ob'"
  using assms
proof (induction steps arbitrary: ob)
  case Nil
  then show ?case by simp
next
  case (Cons st steps)
  obtain k0 rhs0 where st: "st = (k0, rhs0)" by (cases st)
  from Cons.prems st obtain v where v: "rhs0 ob = Inr v" by auto
  have "\<exists>ob'. run_steps (map (\<lambda>(k, rhs). assign k rhs) steps) (put ob k0 v) = Inr ob'"
    by (rule Cons.IH) (use Cons.prems in simp)
  moreover have "assign k0 rhs0 ob = Inr (put ob k0 v)"
    by (simp add: assign_def v)
  ultimately show ?case by (simp add: st)
qed

lemma default_steps_keys:
  "map fst (default_steps chub) = ''first'' # setting_flags @ [''sort'', ''page'', ''asc'', ''include_forks'']"
  by (simp add: default_steps_def comp_def)

lemma default_steps_distinct: "distinct (map fst (default_steps chub))"
  unfolding default_steps_keys by (simp add: setting_flags_def)

lemma setting_flags_fresh:
  "''first'' \<notin> set setting_flags" "''sort'' \<notin> set setting_flags" "''page'' \<notin> set setting_flags"
  "''asc'' \<notin> set setting_flags" "''include_forks'' \<notin> set setting_flags"
  by (simp_all add: setting_flags_def)

lemma first_rhs_resolved:
  "first_rhs chub ob = Inr (resolved chub ''first'' (get ob ''first'')) \<or> (\<exists>e. first_rhs chub ob = Inl e)"
  by (cases chub) (simp_all add: first_rhs_def resolved_def chub_get_def setting_def)

lemma flag_rhs_resolved:
  assumes "k \<in> set setting_flags"
  shows "flag_rhs chub k ob = Inr (resolved chub k (get ob k)) \<or> (\<exists>e. flag_rhs chub k ob = Inl e)"
proof -
  from assms have "k \<noteq> ''first''" using setting_flags_fresh(1) by blast
  with assms show ?thesis
    by (cases chub) (simp_all add: flag_rhs_def resolved_def chub_get_def setting_def)
qed

lemma const_rhs_resolved:
  "or_const ''sort'' (Str ''download_count'') ob = Inr (resolved chub ''sort'' (get ob ''sort''))"
  "or_const ''page'' (Num 1) ob = Inr (resolved chub ''page'' (get ob ''page''))"
  "bool_or_const ''asc'' False ob = Inr (resolved chub ''asc'' (get ob ''asc''))"
  "bool_or_const ''include_forks'' True ob = Inr (resolved chub ''include_forks'' (get ob ''include_forks''))"
  by (simp_all add: or_const_def bool_or_const_def resolved_def setting_flags_fresh)

lemma default_steps_rhs:
  "list_all (\<lambda>(k, rhs). \<forall>ob. rhs ob = Inr (resolved chub k (get ob k)) \<or> (\<exists>e. rhs ob = Inl e))
     (default_steps chub)"
  unfolding default_steps_def list_all_append
  by (simp add: list.pred_map comp_def list_all_iff first_rhs_resolved flag_rhs_resolved
        const_rhs_resolved)

lemma default_steps_rhs_Some:
  "list_all (\<lambda>(k, rhs). \<forall>ob. \<exists>v. rhs ob = Inr v) (default_steps (Some s))"
  unfolding default_steps_def list_all_append
  by (simp add: list.pred_map comp_def list_all_iff first_rhs_def flag_rhs_def chub_get_def
        or_const_def bool_or_const_def)

lemma resolved_other:
  "k \<notin> set (''first'' # setting_flags @ [''sort'', ''page'', ''asc'', ''include_forks'']) \<Longrightarrow> resolved chub k v = v"
  by (simp add: resolved_def)

lemma normalizeOptions_get:
  assumes "normalizeOptions chub options = Inr ob'"
  shows "get ob' k = resolved chub k (get options k)"
proof -
  have "get ob' k = (if k \<in> fst ` set (default_steps chub) then resolved chub k (get options k) else get options k)"
  proof (rule run_steps_assign_get[where g = "resolved chub" and steps = "default_steps chub"])
    show "distinct (map fst (default_steps chub))" by (rule default_steps_distinct)
    show "run_steps (map (\<lambda>(k, rhs). assign k rhs) (default_steps chub)) options = Inr ob'"
      using assms by (simp add: normalizeOptions_steps)
  qed (rule default_steps_rhs)
  moreover have "fst ` set (default_steps chub) = set (''first'' # setting_flags @ [''sort'', ''page'', ''asc'', ''include_forks''])"
    using default_steps_keys[of chub] by (metis set_map)
  ultimately show ?thesis
    using resolved_other[of k chub "get options k"] by (simp split: if_splits)
qed

lemma normalizeOptions_Some:
  "\<exists>ob'. normalizeOptions (Some s) options = Inr ob'"
  unfolding normalizeOptions_steps
  by (rule run_steps_assign_total) (rule default_steps_rhs_Some)

section \<open>Flags and settings\<close>

lemma hasOwnProperty_map_of: "hasOwnProperty ob k \<longleftrightarrow> map_of ob k \<noteq> None"
  by (simp add: hasOwnProperty_def map_of_eq_None_iff)

lemma hasOwnProperty_Nil: "\<not> hasOwnProperty [] k"
  by (simp add: hasOwnProperty_def)

lemma fold_defaults_get:
  "get (fold (\<lambda>(key, v) c. if \<not> hasOwnProperty c key then put c key v else c) ds c) k =
     (if hasOwnProperty c k then get c k else get ds k)"
proof (induction ds arbitrary: c)
  case Nil
  then show ?case by (simp add: get_def hasOwnProperty_map_of)
next
  case (Cons d ds)
  obtain k0 v0 where d: "d = (k0, v0)" by (cases d)
  show ?case
  proof (cases "hasOwnProperty c k0")
    case True
    then show ?thesis
      using Cons.IH[of c] by (auto simp: d get_def)
  next
    case False
    then show ?thesis
      using Cons.IH[of "put c k0 v0"]
      by (auto simp: d hasOwnProperty_put get_put) (simp_all add: get_def)
  qed
qed

lemma defaultSettings_flag:
  "f \<in> set setting_flags \<Longrightarrow> get defaultSettings f = Bool False"
  unfolding setting_flags_def defaultSettings_def get_def by auto

lemma loadSettings_flag:
  assumes "f \<in> set setting_flags"
  shows "get (loadSettings N chub0) f =
     (case chub0 of None \<Rightarrow> Bool False
      | Some c \<Rightarrow> if hasOwnProperty c f then get c f else Bool False)"
proof -
  from assms have "f \<noteq> ''findCount''" by (auto simp: setting_flags_def)
  then show ?thesis
    using defaultSettings_flag[OF assms]
    by (cases chub0) (simp_all add: loadSettings_def Let_def get_put fold_defaults_get hasOwnProperty_Nil)
qed

text \<open>
  Claim C1, as amended. For each of the thirteen flags that have a setting (\<open>nsfw\<close>, \<open>nsfl\<close>,
  \<open>nsfw_only\<close>, \<open>require_images\<close>, \<open>require_example_dialogues\<close>,
  \<open>require_alternate_greetings\<close>, \<open>require_custom_prompt\<close>, \<open>require_expressions\<close>,
  \<open>require_lore\<close>, \<open>require_lore_embedded\<close>, \<open>require_lore_linked\<close>, \<open>inclusive_or\<close>,
  \<open>recommended_verified\<close>) the option defaults return, and the value of the flag is the
  boolean of the raw options when there is one and the persisted setting of that flag
  otherwise; after \<open>loadSettings\<close> the persisted setting is the stored value, or the built-in
  default \<open>false\<close> when the store had none. For \<open>include_forks\<close> the value is the boolean of
  the raw options when there is one and \<open>true\<close> otherwise, whatever the store holds.
\<close>

theorem flag_defaults_from_settings:
  assumes "f \<in> set setting_flags"
  shows "normalized_flag (Some s) raw f =
           Inr (if is_boolean (get raw f) then get raw f else get s f)
       \<and> get (loadSettings N chub0) f =
           (case chub0 of None \<Rightarrow> Bool False
            | Some c \<Rightarrow> if hasOwnProperty c f then get c f else Bool False)
       \<and> normalized_flag (Some s) raw ''include_forks'' =
           Inr (if is_boolean (get raw ''include_forks'') then get raw ''include_forks''
                else Bool True)"
proof -
  obtain ob' where ob': "normalizeOptions (Some s) raw = Inr ob'"
    using normalizeOptions_Some by blast
  from assms have nf: "f \<noteq> ''first''" using setting_flags_fresh(1) by blast
  have "get ob' f = (if is_boolean (get raw f) then get raw f else get s f)"
    using normalizeOptions_get[OF ob', of f] assms nf by (simp add: resolved_def setting_def)
  moreover have "get ob' ''include_forks'' =
      (if is_boolean (get raw ''include_forks'') then get raw ''include_forks'' else Bool True)"
    using normalizeOptions_get[OF ob', of "''include_forks''"]
    by (simp add: resolved_def setting_flags_fresh)
  ultimately show ?thesis
    using loadSettings_flag[OF assms] by (simp add: normalized_flag_def ob')
qed

text \<open>An instance: \<open>nsfw\<close> given as a string falls back to the stored \<open>true\<close>.\<close>

theorem flag_defaults_from_settings_witness:
  "normalized_flag (Some [(''nsfw'', Bool True)]) [(''nsfw'', Str ''yes'')] ''nsfw'' = Inr (Bool True)
   \<and> get (loadSettings id None) ''nsfw'' = Bool False
   \<and> normalized_flag (Some [(''nsfw'', Bool True)]) [(''nsfw'', Str ''yes'')] ''include_forks'' = Inr (Bool True)"
  using flag_defaults_from_settings[of "''nsfw''" "[(''nsfw'', Bool True)]" "[(''nsfw'', Str ''yes'')]" id None]
  by (simp add: setting_flags_def get_def)

text \<open>
  Claim C1 as stated fails for \<open>include_forks\<close>: with no \<open>include_forks\<close> in the raw options
  and a loaded store whose \<open>include_forks\<close> is \<open>false\<close>, the value after the defaults is
  \<open>true\<close>, not the persisted \<open>false\<close>; with a freshly loaded store the persisted value is
  \<open>undefined\<close> and the value after the defaults is \<open>true\<close> again.
\<close>

theorem include_forks_ignores_settings_counterexample:
  "normalized_flag (Some (loadSettings id (Some [(''include_forks'', Bool False)]))) []
       ''include_forks'' = Inr (Bool True)
   \<and> get (loadSettings id (Some [(''include_forks'', Bool False)])) ''include_forks'' = Bool False
   \<and> normalized_flag (Some (loadSettings id None)) [] ''include_forks'' = Inr (Bool True)
   \<and> get (loadSettings id None) ''include_forks'' = Undefined
   \<and> get [] ''include_forks'' = Undefined"
  by code_simp

text \<open>
  Claim C10. When \<open>include_forks\<close> is not a boolean in the raw options, the option defaults
  make it \<open>true\<close>: with any store at all, and also with none whenever the defaults return.
  \<open>include_forks\<close> has no entry in \<open>defaultSettings\<close>, and each of the other boolean flags
  has one.
\<close>

theorem include_forks_defaults_to_true:
  assumes "\<not> is_boolean (get raw ''include_forks'')"
  shows "normalized_flag (Some s) raw ''include_forks'' = Inr (Bool True)
       \<and> (\<forall>ob'. normalizeOptions chub raw = Inr ob' \<longrightarrow> get ob' ''include_forks'' = Bool True)
       \<and> \<not> hasOwnProperty defaultSettings ''include_forks''
       \<and> (\<forall>f \<in> set setting_flags. hasOwnProperty defaultSettings f)"
proof -
  have a: "get ob' ''include_forks'' = Bool True" if "normalizeOptions c raw = Inr ob'" for c ob'
    using normalizeOptions_get[OF that, of "''include_forks''"] assms
    by (simp add: resolved_def setting_flags_fresh)
  obtain ob1 where ob1: "normalizeOptions (Some s) raw = Inr ob1"
    using normalizeOptions_Some by blast
  have "normalized_flag (Some s) raw ''include_forks'' = Inr (Bool True)"
    using a[OF ob1] by (simp add: normalized_flag_def ob1)
  moreover have "\<not> hasOwnProperty defaultSettings ''include_forks''"
    by (simp add: hasOwnProperty_def defaultSettings_def)
  moreover have "\<forall>f \<in> set setting_flags. hasOwnProperty defaultSettings f"
    by (simp add: hasOwnProperty_def defaultSettings_def setting_flags_def)
  ultimately show ?thesis using a by blast
qed

text \<open>An instance: \<open>include_forks: null\<close> with a store that holds \<open>false\<close> for it; without a
  store the defaults throw on the first setting they read.\<close>

theorem include_forks_defaults_to_true_witness:
  "normalized_flag (Some [(''include_forks'', Bool False)]) [(''include_forks'', Null)] ''include_forks'' = Inr (Bool True)
   \<and> normalized_flag None [(''include_forks'', Null)] ''include_forks'' = Inl TypeError"
proof -
  have "\<not> is_boolean (get [(''include_forks'', Null)] ''include_forks'')"
    by (simp add: get_def)
  from include_forks_defaults_to_true[OF this, of "[(''include_forks'', Bool False)]" None]
  have "normalized_flag (Some [(''include_forks'', Bool False)]) [(''include_forks'', Null)] ''include_forks'' = Inr (Bool True)"
    by blast
  moreover have "normalized_flag None [(''include_forks'', Null)] ''include_forks'' = Inl TypeError"
    by code_simp
  ultimately show ?thesis by simp
qed

section \<open>The query encoder\<close>

text \<open>Each option key has its own query key, so an object, whose keys are distinct,
  is encoded with distinct query keys, and the entry of a query key comes from the one
  option that maps to it.\<close>

lemma paramMap_values_distinct: "distinct (map snd paramMap)"
  by (simp add: paramMap_def)

lemma map_of_inj_on_values:
  "distinct (map snd xs) \<Longrightarrow> map_of xs k = Some a \<Longrightarrow> map_of xs k' = Some a \<Longrightarrow> k = k'"
proof (induction xs)
  case Nil
  then show ?case by simp
next
  case (Cons x xs)
  obtain k0 a0 where x: "x = (k0, a0)" by (cases x)
  have notin: "a0 \<notin> snd ` set xs" and d: "distinct (map snd xs)"
    using Cons.prems(1) x by auto
  have later: "map_of xs j = Some a0 \<Longrightarrow> False" for j
    using notin by (metis map_of_SomeD snd_conv image_eqI)
  show ?case
    using Cons.IH[OF d] Cons.prems(2,3) later
    by (auto simp: x split: if_splits)
qed

lemma paramMap_inj:
  "map_of paramMap k = Some a \<Longrightarrow> map_of paramMap k' = Some a \<Longrightarrow> k = k'"
  by (rule map_of_inj_on_values[OF paramMap_values_distinct])

lemma encode_entry_keys:
  "(a, s) \<in> set (encode_entry (k, v)) \<Longrightarrow> map_of paramMap k = Some a"
  by (auto simp: encode_entry_def Let_def split: option.splits if_splits jsval.splits)

lemma buildQueryParams_Cons:
  "buildQueryParams (e # options) = encode_entry e @ buildQueryParams options"
  by (simp add: buildQueryParams_def)

lemma buildQueryParams_keys:
  "(a, s) \<in> set (buildQueryParams options) \<Longrightarrow> \<exists>k v. (k, v) \<in> set options \<and> map_of paramMap k = Some a"
  by (auto simp: buildQueryParams_def dest: encode_entry_keys)

lemma map_of_None_if_no_key: "(\<And>s. (a, s) \<notin> set xs) \<Longrightarrow> map_of xs a = None"
  by (metis map_of_SomeD not_Some_eq)

lemma buildQueryParams_map_of:
  assumes "distinct (map fst options)" and "(k, v) \<in> set options" and "map_of paramMap k = Some a"
  shows "map_of (buildQueryParams options) a = map_of (encode_entry (k, v)) a"
  using assms(1,2)
proof (induction options)
  case Nil
  then show ?case by simp
next
  case (Cons e options)
  obtain k0 v0 where e: "e = (k0, v0)" by (cases e)
  show ?case
  proof (cases "k0 = k")
    case True
    with Cons.prems e have v0: "v0 = v" and notin: "k \<notin> fst ` set options"
      by (auto simp: image_iff)
    have "map_of (buildQueryParams options) a = None"
    proof (rule map_of_None_if_no_key)
      fix s
      show "(a, s) \<notin> set (buildQueryParams options)"
      proof
        assume "(a, s) \<in> set (buildQueryParams options)"
        then obtain k' v' where "(k', v') \<in> set options" "map_of paramMap k' = Some a"
          using buildQueryParams_keys by blast
        with assms(3) notin show False
          using paramMap_inj by (metis fst_conv image_eqI)
      qed
    qed
    then show ?thesis
      by (simp add: buildQueryParams_Cons e True v0 map_add_def split: option.splits)
  next
    case False
    have "map_of (encode_entry (k0, v0)) a = None"
    proof (rule map_of_None_if_no_key)
      fix s
      show "(a, s) \<notin> set (encode_entry (k0, v0))"
        using encode_entry_keys[of a s k0 v0] assms(3) paramMap_inj False by blast
    qed
    moreover have "map_of (buildQueryParams options) a = map_of (encode_entry (k, v)) a"
      using Cons.IH Cons.prems e False by auto
    ultimately show ?thesis
      by (simp add: buildQueryParams_Cons e map_add_def)
  qed
qed

lemma buildQueryParams_distinct:
  assumes "distinct (map fst options)"
  shows "distinct (map fst (buildQueryParams options))"
  using assms
proof (induction options)
  case Nil
  then show ?case by (simp add: buildQueryParams_def)
next
  case (Cons e options)
  obtain k0 v0 where e: "e = (k0, v0)" by (cases e)
  have one: "distinct (map fst (encode_entry (k0, v0)))"
    by (auto simp: encode_entry_def Let_def split: option.splits jsval.splits)
  have disj: "fst ` set (encode_entry (k0, v0)) \<inter> fst ` set (buildQueryParams options) = {}"
  proof (rule ccontr)
    assume "\<not> ?thesis"
    then obtain a s s' where 1: "(a, s) \<in> set (encode_entry (k0, v0))"
      and 2: "(a, s') \<in> set (buildQueryParams options)" by force
    from 2 obtain k' v' where 3: "(k', v') \<in> set options" "map_of paramMap k' = Some a"
      using buildQueryParams_keys by blast
    from encode_entry_keys[OF 1] 3(2) have "k0 = k'" by (rule paramMap_inj)
    with 3(1) Cons.prems e show False by (auto simp: image_iff)
  qed
  show ?case
    using Cons one disj by (simp add: buildQueryParams_Cons e)
qed

section \<open>Printing and parsing integers\<close>

text \<open>\<open>parseInt\<close> reads back the decimal numeral of an integer, so the second \<open>parseInt\<close>,
  in the encoder, returns the number that \<open>getInt\<close> produced.\<close>

lemma digit_val_nth: "list_all (\<lambda>d. digit_val (''0123456789'' ! d) = d) [0..<10]"
  by code_simp

lemma digit_val_digit: "d < 10 \<Longrightarrow> digit_val (''0123456789'' ! d) = d"
  using digit_val_nth by (simp add: list_all_iff)

lemma digit_is_digit: "d < 10 \<Longrightarrow> is_digit (''0123456789'' ! d)"
  unfolding is_digit_def by (rule nth_mem) simp

lemma is_digit_plain: "is_digit c \<Longrightarrow> \<not> js_whitespace c \<and> c \<noteq> CHR ''+'' \<and> c \<noteq> CHR ''-''"
  by (auto simp: is_digit_def js_whitespace_def)

lemma show_nat_digits: "list_all is_digit (show_nat n)"
proof (induction n rule: show_nat.induct)
  case (1 n)
  show ?case
  proof (cases "n < 10")
    case True
    then show ?thesis by (subst show_nat.simps) (simp add: digit_is_digit)
  next
    case False
    then show ?thesis
      using 1 by (subst show_nat.simps) (simp add: digit_is_digit)
  qed
qed

lemma show_nat_nonempty: "show_nat n \<noteq> []"
  by (subst show_nat.simps) simp

lemma digits_value_snoc: "digits_value (ds @ [c]) = 10 * digits_value ds + digit_val c"
  by (simp add: digits_value_def)

lemma digits_value_show_nat: "digits_value (show_nat n) = n"
proof (induction n rule: show_nat.induct)
  case (1 n)
  show ?case
  proof (cases "n < 10")
    case True
    then show ?thesis
      by (subst show_nat.simps) (simp add: digits_value_def digit_val_digit)
  next
    case False
    then have "digits_value (show_nat (n div 10)) = n div 10" using 1 by simp
    with False show ?thesis
      by (subst show_nat.simps) (simp add: digits_value_snoc digit_val_digit)
  qed
qed

lemma parseInt_str_digits:
  assumes "list_all is_digit ds" and "ds \<noteq> []"
  shows "parseInt_str ds = Some (int (digits_value ds))"
    and "parseInt_str (CHR ''-'' # ds) = Some (- int (digits_value ds))"
proof -
  obtain c cs where ds: "ds = c # cs" using assms(2) by (cases ds) auto
  with assms(1) have c: "is_digit c" by simp
  have tw: "takeWhile is_digit ds = ds"
    using assms(1) by (simp add: list_all_iff)
  have dw: "dropWhile js_whitespace ds = ds"
    using is_digit_plain[OF c] by (simp add: ds)
  have neg: "(case ds of [] \<Rightarrow> False | c # x \<Rightarrow> c = CHR ''-'') = False"
    using is_digit_plain[OF c] by (simp add: ds)
  have u: "(case ds of [] \<Rightarrow> [] | c # cs \<Rightarrow> if c = CHR ''+'' \<or> c = CHR ''-'' then cs else ds) = ds"
    using is_digit_plain[OF c] by (simp add: ds)
  show "parseInt_str ds = Some (int (digits_value ds))"
    unfolding parseInt_str_def Let_def dw neg u tw using assms(2) by simp
  have dw': "dropWhile js_whitespace (CHR ''-'' # ds) = CHR ''-'' # ds"
    by (simp add: js_whitespace_def)
  show "parseInt_str (CHR ''-'' # ds) = Some (- int (digits_value ds))"
    unfolding parseInt_str_def Let_def dw' using assms(2) by (simp add: tw)
qed

lemma parseInt_str_show_int: "parseInt_str (show_int n) = Some n"
proof (cases "n < 0")
  case True
  then show ?thesis
    using parseInt_str_digits(2)[OF show_nat_digits show_nat_nonempty, of "nat (- n)"]
    by (simp add: show_int_def digits_value_show_nat)
next
  case False
  then show ?thesis
    using parseInt_str_digits(1)[OF show_nat_digits show_nat_nonempty, of "nat n"]
    by (simp add: show_int_def digits_value_show_nat)
qed

lemma parseInt_Num: "parseInt (Num n) = Num n"
  by (simp add: parseInt_def parseInt_str_show_int)

lemma parseInt_NaN: "parseInt NaN = NaN"
  by (simp add: parseInt_def parseInt_str_def js_whitespace_def is_digit_def)

section \<open>Tag lists and boolean flags in the query\<close>

lemma map_of_query_None:
  "map_of (buildQueryParams options) a = None \<longleftrightarrow> a \<notin> fst ` set (buildQueryParams options)"
  by (simp add: map_of_eq_None_iff)

lemma query_entry_map_of:
  assumes "distinct (map fst options)"
  shows "(a, v) \<in> set (buildQueryParams options) \<longleftrightarrow> map_of (buildQueryParams options) a = Some v"
  using buildQueryParams_distinct[OF assms] by (simp add: map_of_eq_Some_iff)

lemma paramMap_tag_options:
  "map_of paramMap ''includeTags'' = Some ''tags''"
  "map_of paramMap ''excludeTags'' = Some ''exclude_tags''"
  "map_of paramMap ''topics'' = Some ''topics''"
  "map_of paramMap ''excludetopics'' = Some ''excludetopics''"
  by (simp_all add: paramMap_def)

lemma encode_entry_tags:
  assumes "(optionKey, apiKey) \<in> set [(''includeTags'', ''tags''), (''excludeTags'', ''exclude_tags''),
             (''topics'', ''topics''), (''excludetopics'', ''excludetopics'')]"
  shows "map_of paramMap optionKey = Some apiKey"
    and "encode_entry (optionKey, Arr tag_list) =
           (if take 500 (join_comma (filter (\<lambda>t. t \<noteq> []) tag_list)) = [] then []
            else [(apiKey, take 500 (join_comma (filter (\<lambda>t. t \<noteq> []) tag_list)))])"
proof -
  from assms have "(optionKey = ''includeTags'' \<and> apiKey = ''tags'')
    \<or> (optionKey = ''excludeTags'' \<and> apiKey = ''exclude_tags'')
    \<or> (optionKey = ''topics'' \<and> apiKey = ''topics'')
    \<or> (optionKey = ''excludetopics'' \<and> apiKey = ''excludetopics'')"
    by (simp only: list.set insert_iff empty_iff prod.inject simp_thms)
  then have "map_of paramMap optionKey = Some apiKey \<and> apiKey \<in> set tag_keys \<and> apiKey \<noteq> []"
    by (elim disjE conjE) (simp_all add: paramMap_tag_options tag_keys_def)
  then show "map_of paramMap optionKey = Some apiKey"
    and "encode_entry (optionKey, Arr tag_list) =
           (if take 500 (join_comma (filter (\<lambda>t. t \<noteq> []) tag_list)) = [] then []
            else [(apiKey, take 500 (join_comma (filter (\<lambda>t. t \<noteq> []) tag_list)))])"
    by (simp_all add: encode_entry_def Let_def)
qed

text \<open>
  Claim C5. For a tag-list option (\<open>includeTags\<close>, sent as \<open>tags\<close>; \<open>excludeTags\<close>, sent as
  \<open>exclude_tags\<close>; \<open>topics\<close>; \<open>excludetopics\<close>) whose value is an array, the query holds under
  its key the first 500 characters of the non-empty tags joined with commas, and holds no
  such key when that string is empty. A value that is sent has at most 500 characters and
  is not empty; an empty array and an array of empty tags send no key.
\<close>

theorem tag_list_encoding:
  assumes "(optionKey, apiKey) \<in> set [(''includeTags'', ''tags''), (''excludeTags'', ''exclude_tags''),
             (''topics'', ''topics''), (''excludetopics'', ''excludetopics'')]"
    and "distinct (map fst options)"
    and "(optionKey, Arr tag_list) \<in> set options"
  shows "map_of (buildQueryParams options) apiKey =
           (if take 500 (join_comma (filter (\<lambda>t. t \<noteq> []) tag_list)) = [] then None
            else Some (take 500 (join_comma (filter (\<lambda>t. t \<noteq> []) tag_list))))
       \<and> (\<forall>v. (apiKey, v) \<in> set (buildQueryParams options) \<longrightarrow> length v \<le> 500 \<and> v \<noteq> [])
       \<and> ((\<forall>t \<in> set tag_list. t = []) \<longrightarrow> apiKey \<notin> fst ` set (buildQueryParams options))"
proof -
  let ?s = "take 500 (join_comma (filter (\<lambda>t. t \<noteq> []) tag_list))"
  have m: "map_of (buildQueryParams options) apiKey = (if ?s = [] then None else Some ?s)"
    using buildQueryParams_map_of[OF assms(2,3) encode_entry_tags(1)[OF assms(1)]]
    by (simp add: encode_entry_tags(2)[OF assms(1)])
  have "length v \<le> 500 \<and> v \<noteq> []" if "(apiKey, v) \<in> set (buildQueryParams options)" for v
  proof -
    from that have "map_of (buildQueryParams options) apiKey = Some v"
      by (simp add: query_entry_map_of[OF assms(2)])
    with m have "v = ?s" "?s \<noteq> []" by (auto split: if_splits)
    then show ?thesis by simp
  qed
  moreover have "apiKey \<notin> fst ` set (buildQueryParams options)" if "\<forall>t \<in> set tag_list. t = []"
  proof -
    from that have "filter (\<lambda>t. t \<noteq> []) tag_list = []" by (simp add: filter_empty_conv)
    with m have "map_of (buildQueryParams options) apiKey = None" by simp
    then show ?thesis by (simp add: map_of_query_None)
  qed
  ultimately show ?thesis using m by blast
qed

text \<open>Instances: an empty tag between two tags is dropped; two empty tags and no tags at
  all send nothing.\<close>

theorem tag_list_encoding_witness:
  "map_of (buildQueryParams [(''searchTerm'', Str ''elf''), (''includeTags'', Arr [''fantasy'', '''', ''elf''])]) ''tags''
     = Some ''fantasy,elf''
   \<and> ''tags'' \<notin> fst ` set (buildQueryParams [(''includeTags'', Arr ['''', ''''])])
   \<and> ''tags'' \<notin> fst ` set (buildQueryParams [(''includeTags'', Arr [])])"
proof -
  have "map_of (buildQueryParams [(''searchTerm'', Str ''elf''), (''includeTags'', Arr [''fantasy'', '''', ''elf''])]) ''tags''
     = Some ''fantasy,elf''"
    using tag_list_encoding[of "''includeTags''" "''tags''"
        "[(''searchTerm'', Str ''elf''), (''includeTags'', Arr [''fantasy'', '''', ''elf''])]"
        "[''fantasy'', '''', ''elf'']"]
    by simp
  moreover have "''tags'' \<notin> fst ` set (buildQueryParams [(''includeTags'', Arr ['''', ''''])])"
    using tag_list_encoding[of "''includeTags''" "''tags''" "[(''includeTags'', Arr ['''', ''''])]" "['''', '''']"]
    by simp
  moreover have "''tags'' \<notin> fst ` set (buildQueryParams [(''includeTags'', Arr [])])"
    using tag_list_encoding[of "''includeTags''" "''tags''" "[(''includeTags'', Arr [])]" "[]"]
    by simp
  ultimately show ?thesis by simp
qed

lemma flag_keys_all:
  "list_all (\<lambda>f. map_of paramMap f = Some f \<and> f \<notin> set tag_keys \<and> f \<notin> set numeric_keys \<and> f \<noteq> [])
     (setting_flags @ [''include_forks''])"
  by (simp add: setting_flags_def paramMap_def tag_keys_def numeric_keys_def)

lemma flag_keys:
  assumes "f \<in> set (setting_flags @ [''include_forks''])"
  shows "map_of paramMap f = Some f" and "f \<notin> set tag_keys" and "f \<notin> set numeric_keys"
    and "f \<noteq> []"
  using assms flag_keys_all unfolding list_all_iff by blast+

text \<open>
  Claim C6. When a boolean flag of the options (one of the thirteen flags with a setting,
  or \<open>include_forks\<close>) holds a boolean, the query holds its key with the text \<open>true\<close> or
  \<open>false\<close>: a \<open>false\<close> is sent like a \<open>true\<close>.
\<close>

theorem boolean_flag_encoding:
  assumes "f \<in> set (setting_flags @ [''include_forks''])"
    and "distinct (map fst options)"
    and "(f, Bool b) \<in> set options"
  shows "map_of (buildQueryParams options) f = Some (if b then ''true'' else ''false'')
       \<and> (f, if b then ''true'' else ''false'') \<in> set (buildQueryParams options)"
proof -
  have nonempty: "f \<noteq> []" by (rule flag_keys(4)[OF assms(1)])
  have "encode_entry (f, Bool b) = [(f, if b then ''true'' else ''false'')]"
    using flag_keys(1,2,3)[OF assms(1)] nonempty by (simp add: encode_entry_def)
  then have "map_of (buildQueryParams options) f = Some (if b then ''true'' else ''false'')"
    using buildQueryParams_map_of[OF assms(2,3) flag_keys(1)[OF assms(1)]] by simp
  then show ?thesis by (simp add: query_entry_map_of[OF assms(2)])
qed

text \<open>An instance: \<open>nsfw: false\<close> is sent as \<open>nsfw=false\<close>.\<close>

theorem boolean_flag_encoding_witness:
  "map_of (buildQueryParams [(''nsfw'', Bool False), (''include_forks'', Bool True)]) ''nsfw'' = Some ''false''
   \<and> (''nsfw'', ''false'') \<in> set (buildQueryParams [(''nsfw'', Bool False), (''include_forks'', Bool True)])"
  using boolean_flag_encoding[of "''nsfw''" "[(''nsfw'', Bool False), (''include_forks'', Bool True)]" False]
  by (simp add: setting_flags_def)

section \<open>Numeric fields in the query\<close>

lemma numeric_keys_all:
  "list_all (\<lambda>k. map_of paramMap k = Some k \<and> k \<notin> set tag_keys \<and> k \<in> set numeric_keys \<and> k \<noteq> [])
     numeric_fields"
  by (simp add: numeric_fields_def paramMap_def tag_keys_def numeric_keys_def)

lemma numeric_field_keys:
  assumes "k \<in> set numeric_fields"
  shows "map_of paramMap k = Some k" and "k \<notin> set tag_keys" and "k \<in> set numeric_keys"
    and "k \<noteq> []"
  using assms numeric_keys_all unfolding list_all_iff by blast+

lemma encode_entry_numeric:
  assumes "k \<in> set numeric_fields"
  shows "encode_entry (k, Null) = []"
    and "encode_entry (k, NaN) = []"
    and "encode_entry (k, Num n) = [(k, show_int n)]"
  using numeric_field_keys[OF assms]
  by (simp_all add: encode_entry_def Let_def parseInt_Num parseInt_NaN)

lemma getInt_cases:
  "getInt Undefined = Null"
  "getInt (Str s) = (case parseInt_str s of None \<Rightarrow> (if s = [] then Null else NaN) | Some n \<Rightarrow> Num n)"
proof -
  show "getInt Undefined = Null" by (simp add: getInt_def)
  have "parseInt_str [] = None" by (simp add: parseInt_str_def)
  then show "getInt (Str s) = (case parseInt_str s of None \<Rightarrow> (if s = [] then Null else NaN) | Some n \<Rightarrow> Num n)"
    by (cases "s = []") (simp_all add: getInt_def parseInt_def split: option.splits)
qed

text \<open>
  Claim C3, as amended. Each numeric filter field (\<open>min_tokens\<close>, \<open>max_tokens\<close>, \<open>min_tags\<close>,
  \<open>min_users_chatted\<close>, \<open>max_days_ago\<close>, \<open>min_ai_rating\<close>) is read with \<open>parseInt(_, 10)\<close>:
  leading white space is skipped, a sign is read, then the longest run of decimal digits,
  and whatever follows the digits is ignored. When the text has no such digits (the empty
  text, \<open>abc\<close>) or the field is missing, the query has no key for the field. When it has,
  and the number is a safe integer, the query holds the key with the decimal numeral of
  that number.
\<close>

theorem numeric_field_encoding:
  assumes "k \<in> set numeric_fields"
    and "distinct (map fst options)"
  shows "((k, getInt Undefined) \<in> set options \<longrightarrow> k \<notin> fst ` set (buildQueryParams options))
       \<and> ((k, getInt (Str s)) \<in> set options \<and> parseInt_str s = None
            \<longrightarrow> k \<notin> fst ` set (buildQueryParams options))
       \<and> ((k, getInt (Str s)) \<in> set options \<and> parseInt_str s = Some n \<and> \<bar>n\<bar> \<le> MAX_SAFE_INTEGER
            \<longrightarrow> map_of (buildQueryParams options) k = Some (show_int n))"
proof -
  note m = buildQueryParams_map_of[OF assms(2) _ numeric_field_keys(1)[OF assms(1)]]
  have 1: "k \<notin> fst ` set (buildQueryParams options)" if "(k, getInt Undefined) \<in> set options"
    using m[OF that] by (simp add: getInt_cases encode_entry_numeric[OF assms(1)] map_of_query_None)
  have 2: "k \<notin> fst ` set (buildQueryParams options)"
    if "(k, getInt (Str s)) \<in> set options" "parseInt_str s = None"
    using m[OF that(1)] that(2)
    by (cases "s = []")
       (simp_all add: getInt_cases encode_entry_numeric[OF assms(1)] map_of_query_None)
  have 3: "map_of (buildQueryParams options) k = Some (show_int n)"
    if "(k, getInt (Str s)) \<in> set options" "parseInt_str s = Some n"
    using m[OF that(1)] that(2)
    by (simp add: getInt_cases encode_entry_numeric[OF assms(1)])
  show ?thesis using 1 2 3 by blast
qed

text \<open>Instances: \<open>42\<close> is sent as \<open>42\<close>; \<open>abc\<close>, the empty text and a missing field send
  nothing.\<close>

theorem numeric_field_encoding_witness:
  "map_of (buildQueryParams [(''min_tokens'', getInt (Str ''42''))]) ''min_tokens'' = Some ''42''
   \<and> ''min_tokens'' \<notin> fst ` set (buildQueryParams [(''min_tokens'', getInt (Str ''abc''))])
   \<and> ''min_tokens'' \<notin> fst ` set (buildQueryParams [(''min_tokens'', getInt (Str ''''))])
   \<and> ''min_tokens'' \<notin> fst ` set (buildQueryParams [(''min_tokens'', getInt Undefined)])"
proof -
  have k: "''min_tokens'' \<in> set numeric_fields" by (simp add: numeric_fields_def)
  have p: "parseInt_str ''42'' = Some 42" "parseInt_str ''abc'' = None" "parseInt_str '''' = None"
    by code_simp+
  have b: "\<bar>42 :: int\<bar> \<le> MAX_SAFE_INTEGER" by (simp add: MAX_SAFE_INTEGER_def)
  have s: "show_int 42 = ''42''" by code_simp
  have "map_of (buildQueryParams [(''min_tokens'', getInt (Str ''42''))]) ''min_tokens'' = Some ''42''"
    using numeric_field_encoding[OF k, of "[(''min_tokens'', getInt (Str ''42''))]" "''42''" 42] p b s
    by simp
  moreover have "''min_tokens'' \<notin> fst ` set (buildQueryParams [(''min_tokens'', getInt (Str ''abc''))])"
    using numeric_field_encoding[OF k, of "[(''min_tokens'', getInt (Str ''abc''))]" "''abc''" 0] p
    by simp
  moreover have "''min_tokens'' \<notin> fst ` set (buildQueryParams [(''min_tokens'', getInt (Str ''''))])"
    using numeric_field_encoding[OF k, of "[(''min_tokens'', getInt (Str ''''))]" "''''" 0] p
    by simp
  moreover have "''min_tokens'' \<notin> fst ` set (buildQueryParams [(''min_tokens'', getInt Undefined)])"
    using numeric_field_encoding[OF k, of "[(''min_tokens'', getInt Undefined)]" "''''" 0]
    by simp
  ultimately show ?thesis by simp
qed

text \<open>
  Claim C3 as stated fails: the parser is not strict. A strict parser rejects \<open>12abc\<close> and
  \<open>3.7\<close>, and the claim then has the key omitted; the encoder sends \<open>min_tokens=12\<close> and
  \<open>min_tokens=3\<close>.
\<close>

theorem strict_parser_counterexample:
  "strict_parseInt ''12abc'' = None
   \<and> buildQueryParams [(''min_tokens'', getInt (Str ''12abc''))] = [(''min_tokens'', ''12'')]
   \<and> strict_parseInt ''3.7'' = None
   \<and> buildQueryParams [(''min_tokens'', getInt (Str ''3.7''))] = [(''min_tokens'', ''3'')]
   \<and> strict_parseInt ''42'' = Some 42
   \<and> strict_parseInt ''abc'' = None"
  by code_simp

section \<open>The result normaliser\<close>

lemma split_from_first:
  "\<exists>ps. split_from [c] acc s = (rev acc @ takeWhile (\<lambda>x. x \<noteq> c) s) # ps"
proof (induction s arbitrary: acc)
  case Nil
  then show ?case by simp
next
  case (Cons x xs)
  show ?case
  proof (cases "x = c")
    case True
    then show ?thesis by simp
  next
    case False
    with Cons[of "x # acc"] show ?thesis by simp
  qed
qed

lemma derive_author_cases:
  "derive_author fp =
     (if json_truthy fp
      then (case fp of JStr s \<Rightarrow> Inr (JStr (takeWhile (\<lambda>x. x \<noteq> CHR ''/'') s)) | _ \<Rightarrow> Inl TypeError)
      else Inr (JStr ''Unknown Author''))"
proof (cases fp)
  case (JStr s)
  obtain ps where "split_from ''/'' [] s = takeWhile (\<lambda>x. x \<noteq> CHR ''/'') s # ps"
    using split_from_first[of "CHR ''/''" "[]" s] by auto
  then show ?thesis by (simp add: derive_author_def json_split_def split_def JStr)
qed (simp_all add: derive_author_def json_split_def)

lemma check_imageUrl_cases:
  "check_imageUrl v = (if json_truthy v then (case v of JStr s \<Rightarrow> Inr () | _ \<Rightarrow> Inl TypeError) else Inr ())"
  by (cases v) (simp_all add: check_imageUrl_def startsWith_def)

lemma get_prop_Inr:
  "node \<noteq> JNull \<Longrightarrow> node \<noteq> JUndefined \<Longrightarrow> get_prop node k = Inr (node_field node k)"
  by (cases node) (simp_all add: node_field_def)

lemma normalize_node_eq:
  assumes "node \<noteq> JNull" "node \<noteq> JUndefined"
  shows "normalize_node node =
     (let imageUrl = json_or (node_field node ''avatar_url'')
                       (json_or (node_field node ''avatar'') (JStr placeholder)) in
      bind_res (check_imageUrl imageUrl) (\<lambda>u.
      bind_res (derive_author (node_field node ''fullPath'')) (\<lambda>au.
        Inr \<lparr>url = imageUrl,
             description = json_or (node_field node ''tagline'') (JStr ''No description.''),
             name = json_or (node_field node ''name'') (JStr ''Unnamed Character''),
             fullPath = node_field node ''fullPath'',
             tags = json_or (node_field node ''topics'') (JArr []),
             author = au\<rparr>)))"
  unfolding normalize_node_def get_prop_Inr[OF assms]
  by (simp add: bind_res_def Let_def split: sum.splits)

lemma normalize_node_null:
  "node = JNull \<or> node = JUndefined \<Longrightarrow> normalize_node node = Inl TypeError"
  by (auto simp: normalize_node_def bind_res_def)

lemma placeholder_truthy: "json_truthy (JStr placeholder)"
  by (simp add: placeholder_def extensionFolderPath_def)

lemma normalize_node_Inr:
  assumes "normalize_node node = Inr r"
  shows "node \<noteq> JNull" "node \<noteq> JUndefined"
    and "\<exists>s. json_or (node_field node ''avatar_url'')
               (json_or (node_field node ''avatar'') (JStr placeholder)) = JStr s"
    and "json_truthy (node_field node ''fullPath'') \<Longrightarrow> \<exists>s. node_field node ''fullPath'' = JStr s"
    and "r = \<lparr>url = json_or (node_field node ''avatar_url'')
                       (json_or (node_field node ''avatar'') (JStr placeholder)),
             description = json_or (node_field node ''tagline'') (JStr ''No description.''),
             name = json_or (node_field node ''name'') (JStr ''Unnamed Character''),
             fullPath = node_field node ''fullPath'',
             tags = json_or (node_field node ''topics'') (JArr []),
             author = (case node_field node ''fullPath'' of
                         JStr s \<Rightarrow> if s = [] then JStr ''Unknown Author''
                                   else JStr (takeWhile (\<lambda>x. x \<noteq> CHR ''/'') s)
                       | _ \<Rightarrow> JStr ''Unknown Author'')\<rparr>"
proof -
  show n: "node \<noteq> JNull" "node \<noteq> JUndefined"
    using assms normalize_node_null[of node] by auto
  let ?img = "json_or (node_field node ''avatar_url'')
               (json_or (node_field node ''avatar'') (JStr placeholder))"
  let ?fp = "node_field node ''fullPath''"
  from assms obtain u au where c: "check_imageUrl ?img = Inr u"
    and d: "derive_author ?fp = Inr au"
    and r: "r = \<lparr>url = ?img,
             description = json_or (node_field node ''tagline'') (JStr ''No description.''),
             name = json_or (node_field node ''name'') (JStr ''Unnamed Character''),
             fullPath = ?fp,
             tags = json_or (node_field node ''topics'') (JArr []),
             author = au\<rparr>"
    unfolding normalize_node_eq[OF n] by (auto simp: bind_res_def Let_def split: sum.splits)
  have t: "json_truthy ?img"
    using placeholder_truthy by (simp add: json_or_def)
  from c t show "\<exists>s. ?img = JStr s"
    unfolding check_imageUrl_cases by (cases ?img) simp_all
  from d show "json_truthy ?fp \<Longrightarrow> \<exists>s. ?fp = JStr s"
    unfolding derive_author_cases by (cases ?fp) simp_all
  from d have "au = (case ?fp of
                         JStr s \<Rightarrow> if s = [] then JStr ''Unknown Author''
                                   else JStr (takeWhile (\<lambda>x. x \<noteq> CHR ''/'') s)
                       | _ \<Rightarrow> JStr ''Unknown Author'')"
    unfolding derive_author_cases by (cases ?fp) (auto split: if_splits)
  with r show "r = \<lparr>url = ?img,
             description = json_or (node_field node ''tagline'') (JStr ''No description.''),
             name = json_or (node_field node ''name'') (JStr ''Unnamed Character''),
             fullPath = ?fp,
             tags = json_or (node_field node ''topics'') (JArr []),
             author = (case ?fp of
                         JStr s \<Rightarrow> if s = [] then JStr ''Unknown Author''
                                   else JStr (takeWhile (\<lambda>x. x \<noteq> CHR ''/'') s)
                       | _ \<Rightarrow> JStr ''Unknown Author'')\<rparr>"
    by simp
qed

lemma normalize_node_total:
  assumes "node \<noteq> JNull" "node \<noteq> JUndefined"
    and "\<exists>s. json_or (node_field node ''avatar_url'')
               (json_or (node_field node ''avatar'') (JStr placeholder)) = JStr s"
    and "json_truthy (node_field node ''fullPath'') \<longrightarrow> (\<exists>s. node_field node ''fullPath'' = JStr s)"
  shows "\<exists>r. normalize_node node = Inr r"
proof -
  from assms(3) obtain s where "json_or (node_field node ''avatar_url'')
               (json_or (node_field node ''avatar'') (JStr placeholder)) = JStr s" by blast
  then have c: "check_imageUrl (json_or (node_field node ''avatar_url'')
               (json_or (node_field node ''avatar'') (JStr placeholder))) = Inr ()"
    by (simp add: check_imageUrl_cases)
  have "\<exists>au. derive_author (node_field node ''fullPath'') = Inr au"
    using assms(4) by (cases "node_field node ''fullPath''") (auto simp: derive_author_cases)
  then obtain au where d: "derive_author (node_field node ''fullPath'') = Inr au" by blast
  show ?thesis
    unfolding normalize_node_eq[OF assms(1,2)] by (simp add: Let_def bind_res_def c d)
qed

lemma node_field_author_irrelevant:
  "k \<noteq> ''author'' \<Longrightarrow> node_field (JObj ((''author'', v) # kvs)) k = node_field (JObj kvs) k"
  by (simp add: node_field_def)

text \<open>
  Claim C4. A node is normalised to a record exactly when it is neither \<open>null\<close> nor
  \<open>undefined\<close>, the image URL found is a string, and \<open>fullPath\<close> is falsy or a string. In the
  record, the name is the node's \<open>name\<close>, or \<open>Unnamed Character\<close> when that is absent (or
  falsy); the description is the node's \<open>tagline\<close>, or \<open>No description.\<close>; the image URL is
  \<open>avatar_url\<close>, else \<open>avatar\<close>, else the placeholder path; the author is \<open>Unknown Author\<close> when
  \<open>fullPath\<close> is absent (or falsy) and otherwise the part of \<open>fullPath\<close> before its first
  \<open>/\<close>. An \<open>author\<close> field of the node changes nothing in the record.
\<close>

theorem node_normalization:
  "((\<exists>r. normalize_node node = Inr r) \<longleftrightarrow>
      node \<noteq> JNull \<and> node \<noteq> JUndefined
      \<and> (\<exists>s. json_or (node_field node ''avatar_url'')
               (json_or (node_field node ''avatar'') (JStr placeholder)) = JStr s)
      \<and> (json_truthy (node_field node ''fullPath'') \<longrightarrow> (\<exists>s. node_field node ''fullPath'' = JStr s)))
   \<and> (\<forall>r. normalize_node node = Inr r \<longrightarrow>
         name r = json_or (node_field node ''name'') (JStr ''Unnamed Character'')
       \<and> description r = json_or (node_field node ''tagline'') (JStr ''No description.'')
       \<and> url r = json_or (node_field node ''avatar_url'')
                   (json_or (node_field node ''avatar'') (JStr placeholder))
       \<and> (\<not> json_truthy (node_field node ''fullPath'') \<longrightarrow> author r = JStr ''Unknown Author'')
       \<and> (\<forall>s. node_field node ''fullPath'' = JStr s \<and> s \<noteq> [] \<longrightarrow>
              author r = JStr (takeWhile (\<lambda>c. c \<noteq> CHR ''/'') s))
       \<and> (\<forall>kvs v. node = JObj kvs \<longrightarrow> normalize_node (JObj ((''author'', v) # kvs)) = Inr r))"
proof (intro conjI allI impI)
  show "(\<exists>r. normalize_node node = Inr r) \<longleftrightarrow>
      node \<noteq> JNull \<and> node \<noteq> JUndefined
      \<and> (\<exists>s. json_or (node_field node ''avatar_url'')
               (json_or (node_field node ''avatar'') (JStr placeholder)) = JStr s)
      \<and> (json_truthy (node_field node ''fullPath'') \<longrightarrow> (\<exists>s. node_field node ''fullPath'' = JStr s))"
    using normalize_node_Inr(1,2,3,4)[of node] normalize_node_total[of node] by blast
next
  fix r assume a: "normalize_node node = Inr r"
  note r = normalize_node_Inr(5)[OF a]
  show "name r = json_or (node_field node ''name'') (JStr ''Unnamed Character'')"
    by (subst r) simp
  show "description r = json_or (node_field node ''tagline'') (JStr ''No description.'')"
    by (subst r) simp
  show "url r = json_or (node_field node ''avatar_url'')
                   (json_or (node_field node ''avatar'') (JStr placeholder))"
    by (subst r) simp
  show "author r = JStr ''Unknown Author''" if "\<not> json_truthy (node_field node ''fullPath'')"
    using that by (subst r) (cases "node_field node ''fullPath''"; simp)
  show "author r = JStr (takeWhile (\<lambda>c. c \<noteq> CHR ''/'') s)"
    if "node_field node ''fullPath'' = JStr s \<and> s \<noteq> []" for s
    using that by (subst r) simp
  show "normalize_node (JObj ((''author'', v) # kvs)) = Inr r" if "node = JObj kvs" for kvs v
  proof -
    have "normalize_node (JObj ((''author'', v) # kvs)) = normalize_node (JObj kvs)"
      by (simp add: normalize_node_eq node_field_author_irrelevant)
    with a that show ?thesis by simp
  qed
qed

text \<open>The node \<open>{ fullPath: "alice/my-char", name: "X" }\<close>, and the same node with an
  \<open>author\<close> field.\<close>

theorem node_normalization_witness:
  "normalize_node (JObj [(''fullPath'', JStr ''alice/my-char''), (''name'', JStr ''X'')]) =
     Inr \<lparr>url = JStr ''scripts/extensions/Work-SillyTavern-Chub-Search/placeholder.png'',
          description = JStr ''No description.'', name = JStr ''X'',
          fullPath = JStr ''alice/my-char'', tags = JArr [], author = JStr ''alice''\<rparr>
   \<and> normalize_node (JObj [(''author'', JStr ''bob''), (''fullPath'', JStr ''alice/my-char''),
                            (''name'', JStr ''X'')]) =
     Inr \<lparr>url = JStr ''scripts/extensions/Work-SillyTavern-Chub-Search/placeholder.png'',
          description = JStr ''No description.'', name = JStr ''X'',
          fullPath = JStr ''alice/my-char'', tags = JArr [], author = JStr ''alice''\<rparr>"
proof -
  let ?node = "JObj [(''fullPath'', JStr ''alice/my-char''), (''name'', JStr ''X'')]"
  let ?r = "\<lparr>url = JStr ''scripts/extensions/Work-SillyTavern-Chub-Search/placeholder.png'',
          description = JStr ''No description.'', name = JStr ''X'',
          fullPath = JStr ''alice/my-char'', tags = JArr [], author = JStr ''alice''\<rparr>"
  have e: "normalize_node ?node = Inr ?r" by code_simp
  with node_normalization[of ?node] show ?thesis by blast
qed

section \<open>The identity of a record\<close>

lemma map_res_Inr:
  "map_res f xs = Inr ys \<Longrightarrow> length ys = length xs \<and> (\<forall>i<length xs. f (xs ! i) = Inr (ys ! i))"
proof (induction xs arbitrary: ys)
  case Nil
  then show ?case by simp
next
  case (Cons x xs)
  from Cons.prems obtain y ys' where y: "f x = Inr y" and ys': "map_res f xs = Inr ys'"
    and ys: "ys = y # ys'"
    by (auto split: sum.splits)
  from Cons.IH[OF ys'] have "length ys' = length xs" "\<forall>i<length xs. f (xs ! i) = Inr (ys' ! i)"
    by simp_all
  then show ?case
    using y by (auto simp: ys nth_Cons split: nat.splits)
qed

text \<open>
  Claim C9, as amended. When the node list is normalised to records, there is one record
  for each node, in order, and the \<open>fullPath\<close> of a record is the value of the node's
  \<open>fullPath\<close> as it is. It is a non-empty string when the node carries a truthy \<open>fullPath\<close>;
  when the node carries none (or a falsy one) the record keeps that value, \<open>undefined\<close> for
  an absent field, and its author is \<open>Unknown Author\<close>.
\<close>

theorem record_fullPath:
  assumes "nodes_map nodes = Inr cs"
  shows "\<exists>xs. nodes = JArr xs \<and> length cs = length xs
       \<and> (\<forall>i<length xs.
             fullPath (cs ! i) = node_field (xs ! i) ''fullPath''
           \<and> (json_truthy (node_field (xs ! i) ''fullPath'')
                \<longrightarrow> (\<exists>s. fullPath (cs ! i) = JStr s \<and> s \<noteq> []))
           \<and> (\<not> json_truthy (node_field (xs ! i) ''fullPath'')
                \<longrightarrow> author (cs ! i) = JStr ''Unknown Author''))"
proof -
  from assms obtain xs where xs: "nodes = JArr xs" and m: "map_res normalize_node xs = Inr cs"
    by (cases nodes) (simp_all add: nodes_map_def)
  note l = map_res_Inr[OF m]
  have "fullPath (cs ! i) = node_field (xs ! i) ''fullPath''
           \<and> (json_truthy (node_field (xs ! i) ''fullPath'')
                \<longrightarrow> (\<exists>s. fullPath (cs ! i) = JStr s \<and> s \<noteq> []))
           \<and> (\<not> json_truthy (node_field (xs ! i) ''fullPath'')
                \<longrightarrow> author (cs ! i) = JStr ''Unknown Author'')" if "i < length xs" for i
  proof -
    from l that have n: "normalize_node (xs ! i) = Inr (cs ! i)" by simp
    have fp: "fullPath (cs ! i) = node_field (xs ! i) ''fullPath''"
      by (subst normalize_node_Inr(5)[OF n]) simp
    have "\<exists>s. fullPath (cs ! i) = JStr s \<and> s \<noteq> []" if t: "json_truthy (node_field (xs ! i) ''fullPath'')"
      using normalize_node_Inr(4)[OF n t] t fp by auto
    moreover have "author (cs ! i) = JStr ''Unknown Author''"
      if "\<not> json_truthy (node_field (xs ! i) ''fullPath'')"
      using that by (subst normalize_node_Inr(5)[OF n]) (cases "node_field (xs ! i) ''fullPath''"; simp)
    ultimately show ?thesis using fp by blast
  qed
  with xs l show ?thesis by blast
qed

text \<open>Two nodes, the second with \<open>fullPath: null\<close>.\<close>

theorem record_fullPath_witness:
  "nodes_map (JArr [JObj [(''fullPath'', JStr ''alice/my-char'')], JObj [(''fullPath'', JNull)]]) =
     Inr [\<lparr>url = JStr ''scripts/extensions/Work-SillyTavern-Chub-Search/placeholder.png'',
           description = JStr ''No description.'', name = JStr ''Unnamed Character'',
           fullPath = JStr ''alice/my-char'', tags = JArr [], author = JStr ''alice''\<rparr>,
          \<lparr>url = JStr ''scripts/extensions/Work-SillyTavern-Chub-Search/placeholder.png'',
           description = JStr ''No description.'', name = JStr ''Unnamed Character'',
           fullPath = JNull, tags = JArr [], author = JStr ''Unknown Author''\<rparr>]
   \<and> node_field (JObj [(''fullPath'', JStr ''alice/my-char'')]) ''fullPath'' = JStr ''alice/my-char''
   \<and> node_field (JObj [(''fullPath'', JNull)]) ''fullPath'' = JNull"
proof -
  let ?nodes = "JArr [JObj [(''fullPath'', JStr ''alice/my-char'')], JObj [(''fullPath'', JNull)]]"
  let ?cs = "[\<lparr>url = JStr ''scripts/extensions/Work-SillyTavern-Chub-Search/placeholder.png'',
           description = JStr ''No description.'', name = JStr ''Unnamed Character'',
           fullPath = JStr ''alice/my-char'', tags = JArr [], author = JStr ''alice''\<rparr>,
          \<lparr>url = JStr ''scripts/extensions/Work-SillyTavern-Chub-Search/placeholder.png'',
           description = JStr ''No description.'', name = JStr ''Unnamed Character'',
           fullPath = JNull, tags = JArr [], author = JStr ''Unknown Author''\<rparr>]"
  have e: "nodes_map ?nodes = Inr ?cs" by code_simp
  from record_fullPath[OF e] have "\<forall>i<2. fullPath (?cs ! i) = node_field ([JObj [(''fullPath'', JStr ''alice/my-char'')], JObj [(''fullPath'', JNull)]] ! i) ''fullPath''"
    by auto
  then have "fullPath (?cs ! 0) = node_field (JObj [(''fullPath'', JStr ''alice/my-char'')]) ''fullPath''"
    and "fullPath (?cs ! 1) = node_field (JObj [(''fullPath'', JNull)]) ''fullPath''"
    by (auto simp: less_Suc_eq numeral_2_eq_2 dest: spec)
  with e show ?thesis by simp
qed

text \<open>
  Claim C9 as stated fails: for the response \<open>{ nodes: [ { name: "X" } ] }\<close> the search
  returns one record, whose \<open>fullPath\<close> is \<open>undefined\<close>.
\<close>

theorem missing_fullPath_counterexample:
  "fst (fetchCharactersBySearch
          (answering (Inr (ok_response (JObj [(''nodes'', JArr [JObj [(''name'', JStr ''X'')]])]))))
          (Some defaultSettings) [] popup_open) =
     Inr [\<lparr>url = JStr ''scripts/extensions/Work-SillyTavern-Chub-Search/placeholder.png'',
           description = JStr ''No description.'', name = JStr ''X'',
           fullPath = JUndefined, tags = JArr [], author = JStr ''Unknown Author''\<rparr>]"
  by code_simp

section \<open>A response without nodes\<close>


lemma normalize_response_empty:
  assumes "lookup_nodes d = Inr found" and "\<not> json_truthy found \<or> found = JArr []"
  shows "normalize_response d w = (Inr [], w\<lparr>chubCharacters := []\<rparr>)"
  using assms by (auto simp: normalize_response_def Let_def)

lemma lookup_nodes_eq:
  assumes "searchData \<noteq> JNull" "searchData \<noteq> JUndefined"
  shows "lookup_nodes searchData =
     Inr (if json_truthy (node_field searchData ''nodes'') then node_field searchData ''nodes''
          else if json_truthy (node_field searchData ''data'')
               then node_field (node_field searchData ''data'') ''nodes''
               else JNull)"
proof -
  have "get_prop d ''nodes'' = Inr (node_field d ''nodes'')" if "json_truthy d" for d
    using that by (cases d) (simp_all add: node_field_def)
  then show ?thesis
    unfolding lookup_nodes_def get_prop_Inr[OF assms] by simp
qed

lemma lookup_nodes_null:
  "searchData = JNull \<or> searchData = JUndefined \<Longrightarrow> lookup_nodes searchData = Inl TypeError"
  by (auto simp: lookup_nodes_def)

lemma truthy_length:
  "json_truthy v \<Longrightarrow> get_prop v ''length'' = Inr (node_field v ''length'')"
  by (cases v) (simp_all add: node_field_def)

lemma normalize_response_records:
  assumes "lookup_nodes d = Inr found" and "nodes_map found = Inr cs"
  shows "normalize_response d w = (Inr cs, w\<lparr>chubCharacters := cs\<rparr>)"
proof -
  from assms(2) obtain xs where xs: "found = JArr xs"
    by (cases found) (simp_all add: nodes_map_def)
  show ?thesis
  proof (cases xs)
    case Nil
    with assms xs show ?thesis
      by (simp add: normalize_response_def nodes_map_def)
  next
    case (Cons x xs')
    with assms xs show ?thesis
      by (simp add: normalize_response_def)
  qed
qed

lemma normalize_response_throws:
  assumes "lookup_nodes d = Inr found" and "json_truthy found"
    and "node_field found ''length'' \<noteq> JNum 0" and "nodes_map found = Inl e"
  shows "normalize_response d w = (Inl e, w\<lparr>chubCharacters := []\<rparr>)"
  using assms by (simp add: normalize_response_def truthy_length)

lemma normalize_response_null:
  assumes "lookup_nodes d = Inl e"
  shows "normalize_response d w = (Inl e, w\<lparr>chubCharacters := []\<rparr>)"
  using assms by (simp add: normalize_response_def)

lemma nodes_map_not_list: "\<forall>xs. found \<noteq> JArr xs \<Longrightarrow> nodes_map found = Inl TypeError"
  by (cases found) (simp_all add: nodes_map_def)

text \<open>
  Claim C7, as amended. Let the option defaults return and the response be \<open>ok\<close> with a body
  that parses. The node list is what the body holds at \<open>nodes\<close> when that is truthy,
  otherwise what it holds at \<open>data.nodes\<close> when \<open>data\<close> is truthy, otherwise \<open>null\<close>. For a body
  other than \<open>null\<close>: when this lookup gives a falsy value or an empty list, the search
  returns an empty list, makes no call to the notifier and leaves the result list empty;
  when it gives a list whose nodes are all normalised, the search returns their records,
  without a call to the notifier. For the body \<open>null\<close>, and when the lookup gives a truthy
  value that is not a list (and has no \<open>length\<close> of 0) or a list with a node that cannot be
  normalised, the search returns an empty list after one call to the notifier, the error
  \<open>An error occurred while searching CHub.\<close> with the title \<open>Fetch Error\<close>.
\<close>

theorem node_list_lookup:
  assumes "normalizeOptions chub options = Inr options'"
    and "net (search_request options') = Inr r"
    and "ok r" and "json r = Inr searchData"
    and "found = (if json_truthy (node_field searchData ''nodes'') then node_field searchData ''nodes''
                  else if json_truthy (node_field searchData ''data'')
                       then node_field (node_field searchData ''data'') ''nodes''
                       else JNull)"
    and "D = fetchCharactersBySearch net chub options w"
  shows "(searchData \<noteq> JNull \<and> searchData \<noteq> JUndefined \<and> (\<not> json_truthy found \<or> found = JArr [])
            \<longrightarrow> fst D = Inr [] \<and> notified (snd D) = notified w \<and> chubCharacters (snd D) = [])
       \<and> (\<forall>cs. searchData \<noteq> JNull \<and> searchData \<noteq> JUndefined \<and> nodes_map found = Inr cs
            \<longrightarrow> fst D = Inr cs \<and> notified (snd D) = notified w \<and> chubCharacters (snd D) = cs)
       \<and> (searchData = JNull \<or> searchData = JUndefined
           \<or> (json_truthy found \<and> node_field found ''length'' \<noteq> JNum 0
               \<and> ((\<forall>xs. found \<noteq> JArr xs) \<or> (\<exists>e. nodes_map found = Inl e)))
            \<longrightarrow> fst D = Inr []
              \<and> notified (snd D) = notified w @
                   [\<lparr>kind = error, message = ''An error occurred while searching CHub.'',
                     title = Some ''Fetch Error'', onclick = None\<rparr>])"
proof -
  note D = assms(6)
  note unfold = fetchCharactersBySearch_def assms(1) fetch_def assms(2) assms(3) assms(4)
  have l: "lookup_nodes searchData = Inr found"
    if "searchData \<noteq> JNull" "searchData \<noteq> JUndefined"
    using lookup_nodes_eq[OF that] assms(5) by simp
  have 1: "fst D = Inr [] \<and> notified (snd D) = notified w \<and> chubCharacters (snd D) = []"
    if "searchData \<noteq> JNull" "searchData \<noteq> JUndefined" "\<not> json_truthy found \<or> found = JArr []"
    unfolding D by (simp add: unfold normalize_response_empty[OF l[OF that(1,2)] that(3)])
  have 2: "fst D = Inr cs \<and> notified (snd D) = notified w \<and> chubCharacters (snd D) = cs"
    if "searchData \<noteq> JNull" "searchData \<noteq> JUndefined" "nodes_map found = Inr cs" for cs
    unfolding D by (simp add: unfold normalize_response_records[OF l[OF that(1,2)] that(3)])
  have 3: "fst D = Inr []
              \<and> notified (snd D) = notified w @
                   [\<lparr>kind = error, message = ''An error occurred while searching CHub.'',
                     title = Some ''Fetch Error'', onclick = None\<rparr>]"
    if a: "searchData = JNull \<or> searchData = JUndefined
           \<or> (json_truthy found \<and> node_field found ''length'' \<noteq> JNum 0
               \<and> ((\<forall>xs. found \<noteq> JArr xs) \<or> (\<exists>e. nodes_map found = Inl e)))"
  proof -
    have "\<exists>e. normalize_response searchData w' = (Inl e, w'\<lparr>chubCharacters := []\<rparr>)" for w'
    proof (cases "searchData = JNull \<or> searchData = JUndefined")
      case True
      then show ?thesis
        using normalize_response_null[OF lookup_nodes_null] by blast
    next
      case False
      then have l': "lookup_nodes searchData = Inr found"
        using l by blast
      from a False have t: "json_truthy found" and n: "node_field found ''length'' \<noteq> JNum 0"
        and "(\<forall>xs. found \<noteq> JArr xs) \<or> (\<exists>e. nodes_map found = Inl e)" by auto
      then obtain e where "nodes_map found = Inl e"
        using nodes_map_not_list by blast
      from normalize_response_throws[OF l' t n this] show ?thesis by blast
    qed
    then obtain e where "normalize_response searchData (w\<lparr>fetched := fetched w @ [search_request options']\<rparr>)
        = (Inl e, w\<lparr>fetched := fetched w @ [search_request options']\<rparr>\<lparr>chubCharacters := []\<rparr>)"
      by blast
    then show ?thesis
      unfolding D by (simp add: unfold report_exception_def exception_toast_def toastr_def)
  qed
  show ?thesis using 1 2 3 by blast
qed

text \<open>The bodies \<open>{ nodes: [] }\<close> and \<open>{}\<close>; a body with nodes only under \<open>data\<close>; and a body
  with nodes at both places, where those at \<open>nodes\<close> are taken.\<close>

theorem node_list_lookup_witness:
  "fst (fetchCharactersBySearch (answering (Inr (ok_response (JObj [(''nodes'', JArr [])]))))
          (Some defaultSettings) [] popup_open) = Inr []
   \<and> notified (snd (fetchCharactersBySearch
          (answering (Inr (ok_response (JObj [(''nodes'', JArr [])]))))
          (Some defaultSettings) [] popup_open)) = []
   \<and> fst (fetchCharactersBySearch (answering (Inr (ok_response (JObj []))))
          (Some defaultSettings) [] popup_open) = Inr []
   \<and> notified (snd (fetchCharactersBySearch (answering (Inr (ok_response (JObj []))))
          (Some defaultSettings) [] popup_open)) = []
   \<and> map name (projr (fst (fetchCharactersBySearch
          (answering (Inr (ok_response
             (JObj [(''nodes'', JNull),
                    (''data'', JObj [(''nodes'', JArr [JObj [(''name'', JStr ''B'')]])])]))))
          (Some defaultSettings) [] popup_open))) = [JStr ''B'']
   \<and> map name (projr (fst (fetchCharactersBySearch
          (answering (Inr (ok_response
             (JObj [(''nodes'', JArr [JObj [(''name'', JStr ''A'')]]),
                    (''data'', JObj [(''nodes'', JArr [JObj [(''name'', JStr ''B'')]])])]))))
          (Some defaultSettings) [] popup_open))) = [JStr ''A'']"
proof -
  obtain ob' where ob': "normalizeOptions (Some defaultSettings) [] = Inr ob'"
    using normalizeOptions_Some by blast
  have o: "ok (ok_response b)" "json (ok_response b) = Inr b" for b
    by (simp_all add: ok_response_def)
  have n: "answering a (search_request ob') = a" for a
    by (simp add: answering_def)
  have p: "notified popup_open = []" by (simp add: popup_open_def)
  have 1: "fst (fetchCharactersBySearch (answering (Inr (ok_response (JObj [(''nodes'', JArr [])]))))
          (Some defaultSettings) [] popup_open) = Inr []
   \<and> notified (snd (fetchCharactersBySearch
          (answering (Inr (ok_response (JObj [(''nodes'', JArr [])]))))
          (Some defaultSettings) [] popup_open)) = []"
    using node_list_lookup[where net = "answering (Inr (ok_response (JObj [(''nodes'', JArr [])])))"
          and r = "ok_response (JObj [(''nodes'', JArr [])])" and w = popup_open, OF ob' n o refl refl]
    by (simp add: node_field_def p)
  have 2: "fst (fetchCharactersBySearch (answering (Inr (ok_response (JObj []))))
          (Some defaultSettings) [] popup_open) = Inr []
   \<and> notified (snd (fetchCharactersBySearch (answering (Inr (ok_response (JObj []))))
          (Some defaultSettings) [] popup_open)) = []"
    using node_list_lookup[where net = "answering (Inr (ok_response (JObj [])))"
          and r = "ok_response (JObj [])" and w = popup_open, OF ob' n o refl refl]
    by (simp add: node_field_def p)
  have m: "\<exists>cs. nodes_map (JArr [JObj [(''name'', JStr v)]]) = Inr cs \<and> map name cs = [JStr v]"
    if "v \<noteq> []" for v
    using that
    by (simp add: nodes_map_def normalize_node_eq node_field_def bind_res_def json_or_def
          check_imageUrl_cases derive_author_cases placeholder_def extensionFolderPath_def)
  have 3: "map name (projr (fst (fetchCharactersBySearch
          (answering (Inr (ok_response
             (JObj [(''nodes'', JNull),
                    (''data'', JObj [(''nodes'', JArr [JObj [(''name'', JStr ''B'')]])])]))))
          (Some defaultSettings) [] popup_open))) = [JStr ''B'']"
    using node_list_lookup[where net = "answering (Inr (ok_response (JObj [(''nodes'', JNull),
                    (''data'', JObj [(''nodes'', JArr [JObj [(''name'', JStr ''B'')]])])])))"
          and r = "ok_response (JObj [(''nodes'', JNull),
                    (''data'', JObj [(''nodes'', JArr [JObj [(''name'', JStr ''B'')]])])])" and w = popup_open, OF ob' n o refl refl]
      m[of "''B''"]
    by (auto simp: node_field_def)
  have 4: "map name (projr (fst (fetchCharactersBySearch
          (answering (Inr (ok_response
             (JObj [(''nodes'', JArr [JObj [(''name'', JStr ''A'')]]),
                    (''data'', JObj [(''nodes'', JArr [JObj [(''name'', JStr ''B'')]])])]))))
          (Some defaultSettings) [] popup_open))) = [JStr ''A'']"
    using node_list_lookup[where net = "answering (Inr (ok_response (JObj [(''nodes'', JArr [JObj [(''name'', JStr ''A'')]]),
                    (''data'', JObj [(''nodes'', JArr [JObj [(''name'', JStr ''B'')]])])])))"
          and r = "ok_response (JObj [(''nodes'', JArr [JObj [(''name'', JStr ''A'')]]),
                    (''data'', JObj [(''nodes'', JArr [JObj [(''name'', JStr ''B'')]])])])" and w = popup_open, OF ob' n o refl refl]
      m[of "''A''"]
    by (auto simp: node_field_def)
  show ?thesis using 1 2 3 4 by blast
qed

text \<open>
  Claim C7 as stated fails: the bodies \<open>null\<close> and \<open>{ nodes: 5 }\<close> parse and hold no node
  list, and the search reports an error for each.
\<close>

theorem no_node_list_error_counterexample:
  "fst (fetchCharactersBySearch (answering (Inr (ok_response JNull)))
          (Some defaultSettings) [] popup_open) = Inr []
   \<and> notified (snd (fetchCharactersBySearch (answering (Inr (ok_response JNull)))
          (Some defaultSettings) [] popup_open)) =
       [\<lparr>kind = error, message = ''An error occurred while searching CHub.'',
         title = Some ''Fetch Error'', onclick = None\<rparr>]
   \<and> fst (fetchCharactersBySearch (answering (Inr (ok_response (JObj [(''nodes'', JNum 5)]))))
          (Some defaultSettings) [] popup_open) = Inr []
   \<and> notified (snd (fetchCharactersBySearch
          (answering (Inr (ok_response (JObj [(''nodes'', JNum 5)]))))
          (Some defaultSettings) [] popup_open)) =
       [\<lparr>kind = error, message = ''An error occurred while searching CHub.'',
         title = Some ''Fetch Error'', onclick = None\<rparr>]"
  by code_simp

section \<open>A failed search\<close>





lemma search_enter_frame:
  "notified (search_enter w) = notified w"
  by (simp add: search_enter_def Let_def split: option.splits)


lemma search_enter_searching:
  "characterListContainer w = Some el \<Longrightarrow> in_document el \<Longrightarrow> searching (search_enter w)"
  by (simp add: search_enter_def searching_def classList_add_def)



text \<open>When the option defaults throw (there is no settings store and an option needs one),
  no request is made: \<open>searchCharacters\<close> throws, and the class \<open>searching\<close> stays on a result
  list that is in the document.\<close>

lemma search_throws_before_fetch:
  assumes "normalizeOptions chub options = Inl e"
    and "characterListContainer w = Some el" and "in_document el"
  shows "\<exists>w'. searchCharacters net chub options w = (Inl e, w') \<and> searching w'
           \<and> fetched w' = fetched w \<and> notified w' = notified w"
  using assms search_enter_searching[OF assms(2,3)]
  by (simp add: searchCharacters_def fetchCharactersBySearch_def search_enter_frame)
     (simp add: search_enter_def)

section \<open>The download\<close>

text \<open>
  What \<open>downloadCharacter\<close> does when its requests are answered. Let the primary endpoint
  \<open>/api/content/importUUID\<close> answer with a response, and the legacy endpoint
  \<open>/import_custom\<close> too when it is asked. The primary endpoint is asked first and the legacy
  endpoint only when the primary response is not \<open>ok\<close>, with the same body. When the last
  response is not \<open>ok\<close>, the function returns after one notice whose click opens the page
  of the character, and nothing is ingested. When it is \<open>ok\<close>, its body can be read and its
  \<open>Content-Disposition\<close> header has a second piece when split at \<open>filename=\<close>: for the
  content type \<open>character\<close> the file of that body, named by that piece without its double
  quotes, is handed to \<open>processDroppedFiles\<close> and nothing is notified; for any other content
  type, or none, the warning \<open>Unknown content type\<close> is notified and nothing is ingested.
\<close>

lemma download_attempts:
  assumes "net (import_request ''/api/content/importUUID'' hdrs (trim input)) = Inr r1"
    and "\<not> ok r1 \<longrightarrow> net (import_request ''/import_custom'' hdrs (trim input)) = Inr r2"
    and "r = (if ok r1 then r1 else r2)"
    and "D = downloadCharacter net hdrs input w"
  shows "fetched (snd D) = fetched w @
           (import_request ''/api/content/importUUID'' hdrs (trim input)
            # (if ok r1 then [] else [import_request ''/import_custom'' hdrs (trim input)]))
       \<and> req_body (import_request ''/import_custom'' hdrs (trim input)) =
           req_body (import_request ''/api/content/importUUID'' hdrs (trim input))
       \<and> (\<not> ok r \<longrightarrow>
            fst D = Inr ()
            \<and> notified (snd D) = notified w @
                [\<lparr>kind = info, message = ''Click to go to the character page'',
                  title = Some ''Custom content import failed'',
                  onclick = Some (window_open (''https://www.chub.ai/characters/'' @ trim input)
                                    ''_blank'')\<rparr>]
            \<and> dropped (snd D) = dropped w)
       \<and> (\<forall>data h p0 p1 ps.
            ok r \<and> blob r = Inr data \<and> headers r ''Content-Disposition'' = Some h
            \<and> split h ''filename='' = p0 # p1 # ps \<longrightarrow>
              (headers r ''X-Custom-Content-Type'' = Some ''character'' \<longrightarrow>
                 fst D = Inr ()
                 \<and> dropped (snd D) = dropped w @
                     [[\<lparr>file_data = data, file_name = filter (\<lambda>c. c \<noteq> CHR 0x22) p1,
                        file_type = mime data\<rparr>]]
                 \<and> notified (snd D) = notified w)
            \<and> (headers r ''X-Custom-Content-Type'' \<noteq> Some ''character'' \<longrightarrow>
                 fst D = Inr ()
                 \<and> notified (snd D) = notified w @
                     [\<lparr>kind = warning, message = ''Unknown content type'', title = None,
                       onclick = None\<rparr>]
                 \<and> dropped (snd D) = dropped w))"
proof (cases "ok r1")
  case True
  then show ?thesis
    using assms
    by (auto simp: downloadCharacter_def Let_def fetch_def import_request_def toastr_def
          processDroppedFiles_def failure_notice_def unknown_type_warning_def
          content_disposition_fileName_def split: sum.splits)
next
  case False
  then show ?thesis
    using assms
    by (auto simp: downloadCharacter_def Let_def fetch_def import_request_def toastr_def
          processDroppedFiles_def failure_notice_def unknown_type_warning_def
          content_disposition_fileName_def split: sum.splits)
qed

text \<open>A host whose primary endpoint answers 404 and whose legacy endpoint sends the card;
  and a host where both answer 404.\<close>

lemma download_attempts_instance:
  "downloadCharacter (host not_found card_response) [] '' alice/my-char '' popup_open =
     (Inr (),
      popup_open
        \<lparr>fetched :=
           [\<lparr>req_url = ''/api/content/importUUID'', req_method = ''POST'', req_headers = [],
             req_body = Some (''{'' @ [CHR 0x22] @ ''url'' @ [CHR 0x22] @ '':'' @ [CHR 0x22]
                               @ ''alice/my-char'' @ [CHR 0x22] @ ''}'')\<rparr>,
            \<lparr>req_url = ''/import_custom'', req_method = ''POST'', req_headers = [],
             req_body = Some (''{'' @ [CHR 0x22] @ ''url'' @ [CHR 0x22] @ '':'' @ [CHR 0x22]
                               @ ''alice/my-char'' @ [CHR 0x22] @ ''}'')\<rparr>],
         dropped :=
           [[\<lparr>file_data = \<lparr>bytes = ''PNG'', mime = ''image/png''\<rparr>, file_name = ''card.png'',
              file_type = ''image/png''\<rparr>]]\<rparr>)
   \<and> notified (snd (downloadCharacter (host not_found not_found) [] '' alice/my-char ''
                      popup_open)) =
       [\<lparr>kind = info, message = ''Click to go to the character page'',
         title = Some ''Custom content import failed'',
         onclick = Some (window_open ''https://www.chub.ai/characters/alice/my-char''
                           ''_blank'')\<rparr>]"
  by code_simp

text \<open>
  Claim C8 fails where a request is not answered or the response has no file name. With
  the host out of reach, \<open>fetch\<close> rejects: \<open>downloadCharacter\<close> throws after the first
  request, notifies nothing and asks no second endpoint. With a successful response of
  the content type \<open>lorebook\<close> that has no \<open>Content-Disposition\<close> header, it throws a
  \<open>TypeError\<close> and notifies no warning.
\<close>

theorem download_throws:
  "downloadCharacter (answering (Inl NetworkError)) [] ''alice/my-char'' popup_open =
     (Inl NetworkError,
      popup_open
        \<lparr>fetched :=
           [\<lparr>req_url = ''/api/content/importUUID'', req_method = ''POST'', req_headers = [],
             req_body = Some (''{'' @ [CHR 0x22] @ ''url'' @ [CHR 0x22] @ '':'' @ [CHR 0x22]
                               @ ''alice/my-char'' @ [CHR 0x22] @ ''}'')\<rparr>]\<rparr>)
   \<and> notified popup_open = []
   \<and> fst (downloadCharacter (answering (Inr lorebook_response)) [] ''alice/my-book''
            popup_open) = Inl TypeError
   \<and> notified (snd (downloadCharacter (answering (Inr lorebook_response)) [] ''alice/my-book''
                      popup_open)) = []
   \<and> dropped (snd (downloadCharacter (answering (Inr lorebook_response)) [] ''alice/my-book''
                      popup_open)) = []"
  by code_simp

text \<open>In general: a successful response without a \<open>Content-Disposition\<close> header, and a
  rejected first request.\<close>

lemma download_without_filename:
  assumes "net (import_request ''/api/content/importUUID'' hdrs (trim input)) = Inr r"
    and "ok r" and "blob r = Inr data" and "headers r ''Content-Disposition'' = None"
  shows "fst (downloadCharacter net hdrs input w) = Inl TypeError"
    and "notified (snd (downloadCharacter net hdrs input w)) = notified w"
    and "dropped (snd (downloadCharacter net hdrs input w)) = dropped w"
  using assms
  by (simp_all add: downloadCharacter_def Let_def fetch_def content_disposition_fileName_def)

lemma download_rejected:
  assumes "net (import_request ''/api/content/importUUID'' hdrs (trim input)) = Inl e"
  shows "fst (downloadCharacter net hdrs input w) = Inl e"
    and "notified (snd (downloadCharacter net hdrs input w)) = notified w"
  using assms by (simp_all add: downloadCharacter_def Let_def fetch_def)

end
